theory Spec2Isabelle
  imports Complex_Main "HOL-Library.Log_Nat"
begin

section \<open>ClipStitch: the sequential capture pipeline of \<^verbatim>\<open>src/utils/videoProcessor.ts\<close>\<close>

text \<open>
  The pipeline is callback driven: \<^verbatim>\<open>stitchVideos\<close> sets up a canvas, an audio graph and
  a recorder, then awaits \<^verbatim>\<open>playVideoToCanvas\<close> once per clip. The browser is the
  environment. Every answer the code branches on (a null drawing context, the state of
  the audio context, \<^verbatim>\<open>isTypeSupported\<close>, the events a video element fires, the chunks
  the recorder delivers) is an input of the model, and every call into the browser that
  allocates or changes something is written to a trace, in program order. A call into the
  browser returns normally unless the code handles its failure (the two calls in the
  \<^verbatim>\<open>try\<close> block, and \<^verbatim>\<open>video.play()\<close>). An awaited promise that never settles leaves
  the run pending for ever.
\<close>

subsection \<open>JavaScript numbers\<close>

text \<open>
  A number is an IEEE-754 double: a finite value, which is a rational here, or one of the
  special values. Every arithmetic result is rounded to the nearest double, ties to even:
  53 significant bits, with the exponent of the quantum held at \<open>-1022 - 52\<close> for results
  in the subnormal range. Two things are left out. The sign of zero is not kept. A result
  is not turned into an infinity for its size, since \<^verbatim>\<open>drawFrame\<close> works on \<^verbatim>\<open>unsigned long\<close>
  attributes, which are below \<open>2^32\<close>, and nothing it computes from them comes near
  \<open>2^1024\<close>.
\<close>

text \<open>The nearest integer, the even one of two equally near.\<close>

definition round_half_even :: "rat \<Rightarrow> int" where
  "round_half_even y =
     (let f = \<lfloor>y\<rfloor>; r = y - of_int f
      in if r < 1 / 2 then f else if 1 / 2 < r then f + 1 else if even f then f else f + 1)"

text \<open>The exponent \<open>e\<close> of a non-zero \<open>x\<close>: \<open>2^e \<le> |x| < 2^(e + 1)\<close>.\<close>

definition binade :: "rat \<Rightarrow> int" where
  "binade x =
     (case quotient_of \<bar>x\<bar> of (n, d) \<Rightarrow>
        let k = bitlen n - bitlen d in if 2 powi k \<le> \<bar>x\<bar> then k else k - 1)"

definition round_double :: "rat \<Rightarrow> rat" where
  "round_double x =
     (if x = 0 then 0
      else let q = 2 powi (max (binade x) (- 1022) - 52)
           in of_int (round_half_even (x / q)) * q)"

datatype jsnum = Num rat | PosInf | NegInf | NaN

fun js_div :: "jsnum \<Rightarrow> jsnum \<Rightarrow> jsnum" where
  "js_div NaN _ = NaN"
| "js_div _ NaN = NaN"
| "js_div (Num a) (Num b) =
     (if b = 0 then (if a = 0 then NaN else if 0 < a then PosInf else NegInf)
      else Num (round_double (a / b)))"
| "js_div (Num a) PosInf = Num 0"
| "js_div (Num a) NegInf = Num 0"
| "js_div PosInf (Num b) = (if 0 \<le> b then PosInf else NegInf)"
| "js_div NegInf (Num b) = (if 0 \<le> b then NegInf else PosInf)"
| "js_div PosInf PosInf = NaN"
| "js_div PosInf NegInf = NaN"
| "js_div NegInf PosInf = NaN"
| "js_div NegInf NegInf = NaN"

fun js_mul :: "jsnum \<Rightarrow> jsnum \<Rightarrow> jsnum" where
  "js_mul NaN _ = NaN"
| "js_mul _ NaN = NaN"
| "js_mul (Num a) (Num b) = Num (round_double (a * b))"
| "js_mul (Num a) PosInf = (if a = 0 then NaN else if 0 < a then PosInf else NegInf)"
| "js_mul (Num a) NegInf = (if a = 0 then NaN else if 0 < a then NegInf else PosInf)"
| "js_mul PosInf (Num b) = (if b = 0 then NaN else if 0 < b then PosInf else NegInf)"
| "js_mul NegInf (Num b) = (if b = 0 then NaN else if 0 < b then NegInf else PosInf)"
| "js_mul PosInf PosInf = PosInf"
| "js_mul PosInf NegInf = NegInf"
| "js_mul NegInf PosInf = NegInf"
| "js_mul NegInf NegInf = PosInf"

fun js_sub :: "jsnum \<Rightarrow> jsnum \<Rightarrow> jsnum" where
  "js_sub NaN _ = NaN"
| "js_sub _ NaN = NaN"
| "js_sub (Num a) (Num b) = Num (round_double (a - b))"
| "js_sub (Num a) PosInf = NegInf"
| "js_sub (Num a) NegInf = PosInf"
| "js_sub PosInf (Num b) = PosInf"
| "js_sub NegInf (Num b) = NegInf"
| "js_sub PosInf PosInf = NaN"
| "js_sub PosInf NegInf = PosInf"
| "js_sub NegInf PosInf = NegInf"
| "js_sub NegInf NegInf = NaN"

text \<open>\<^verbatim>\<open>Math.min\<close>: NaN if either argument is NaN.\<close>

fun js_min :: "jsnum \<Rightarrow> jsnum \<Rightarrow> jsnum" where
  "js_min NaN _ = NaN"
| "js_min _ NaN = NaN"
| "js_min NegInf _ = NegInf"
| "js_min _ NegInf = NegInf"
| "js_min PosInf y = y"
| "js_min x PosInf = x"
| "js_min (Num a) (Num b) = Num (min a b)"

text \<open>
  An \<^verbatim>\<open>unsigned long\<close> attribute (\<^verbatim>\<open>canvas.width\<close>, \<^verbatim>\<open>video.videoWidth\<close>) read as a number:
  such a value is below \<open>2^32\<close> and every integer of that size is a double.
\<close>

definition num :: "nat \<Rightarrow> jsnum" where
  "num n = Num (of_nat n)"

subsection \<open>Data\<close>

text \<open>\<^verbatim>\<open>src/constants.ts\<close>\<close>

definition CANVAS_WIDTH :: nat where "CANVAS_WIDTH = 1280"
definition CANVAS_HEIGHT :: nat where "CANVAS_HEIGHT = 720"
definition VIDEO_FRAME_RATE :: nat where "VIDEO_FRAME_RATE = 30"

text \<open>A \<^verbatim>\<open>File\<close> is opaque to the code; it is identified by a number.\<close>

datatype js_file = File nat

text \<open>
  \<^verbatim>\<open>VideoFile\<close> and \<^verbatim>\<open>ProcessingProgress\<close> of the types module (the fields \<^verbatim>\<open>id\<close> and
  \<^verbatim>\<open>file\<close> carry a prime: both names are taken in Isabelle).
\<close>

record VideoFile =
  id' :: string
  file' :: js_file
  previewUrl :: string
  duration :: nat
  name :: string

text \<open>
  The two status messages are template literals with a Thai text around the clip number
  and name; the message is kept as its template and its holes.
\<close>

datatype status_message = ProcessingClip nat string | Finalizing

record ProcessingProgress =
  currentClipIndex :: nat
  totalClips :: nat
  statusMessage :: status_message

text \<open>A \<^verbatim>\<open>Blob\<close>: its bytes and its type; \<^verbatim>\<open>size\<close> is the number of bytes.\<close>

record blob =
  bytes :: "nat list"
  mime :: string

definition size_blob :: "blob \<Rightarrow> nat" where
  "size_blob b = length (bytes b)"

text \<open>\<^verbatim>\<open>new Blob(parts, { type })\<close> concatenates the parts in order.\<close>

definition newBlob :: "blob list \<Rightarrow> string \<Rightarrow> blob" where
  "newBlob parts t = \<lparr>bytes = concat (map bytes parts), mime = t\<rparr>"

text \<open>
  What a promise of the code is rejected with: an \<^verbatim>\<open>Error\<close> made by \<^verbatim>\<open>stitchVideos\<close>
  itself, the event handed to \<^verbatim>\<open>video.onerror\<close>, or the reason \<^verbatim>\<open>video.play()\<close> rejected
  with. The last two are the browser's objects, identified by a number.
\<close>

datatype reason = Error string | MediaErrorEvent nat | PlayRejection nat

text \<open>A promise has been fulfilled, has been rejected, or never settles.\<close>

datatype 'a outcome = Fulfilled 'a | Rejected reason | Pending

datatype audio_state = Suspended | Running | Closed

text \<open>
  What happens in the \<^verbatim>\<open>try\<close> block of \<^verbatim>\<open>onloadedmetadata\<close>: both calls return, or
  \<^verbatim>\<open>createMediaElementSource\<close> throws, or it returns and \<^verbatim>\<open>connect\<close> throws.
\<close>

datatype attach_outcome = AttachOk | CreateThrows | ConnectThrows

text \<open>The attributes of the video element that \<^verbatim>\<open>drawFrame\<close> reads.\<close>

record frame =
  paused :: bool
  ended :: bool
  videoWidth :: nat
  videoHeight :: nat

text \<open>
  The events the browser delivers to one clip's handlers. \<^verbatim>\<open>PlayFulfilled\<close> and
  \<^verbatim>\<open>AnimationFrame\<close> run \<^verbatim>\<open>drawFrame\<close> and carry the element's attributes at that moment.
\<close>

datatype video_event =
    LoadedMetadata attach_outcome
  | PlayFulfilled frame
  | PlayRejected nat
  | AnimationFrame frame
  | Ended
  | ErrorEvent nat

text \<open>The calls into the browser that the trace records.\<close>

datatype host_call =
    CreateCanvas nat nat
  | GetContext2D
  | FillStyle string
  | FillRect jsnum jsnum jsnum jsnum
  | NewAudioContext
  | CreateMediaStreamDestination
  | AudioResume
  | CaptureStream nat
  | NewMediaStream
  | ConsoleLog string
  | NewMediaRecorder string
  | RecorderStart
  | OnProgress ProcessingProgress
  | CreateVideo
  | CreateObjectURL js_file
  | CreateMediaElementSource
  | Connect
  | ConsoleWarn
  | Play
  | DrawImage jsnum jsnum jsnum jsnum
  | RequestAnimationFrame
  | Disconnect
  | RevokeObjectURL js_file
  | Resolve
  | Reject reason
  | RecorderStop
  | NewBlob blob
  | AudioClose

text \<open>
  The browser of one run: whether \<^verbatim>\<open>getContext('2d')\<close> returns a context, the state of a
  new audio context, \<^verbatim>\<open>MediaRecorder.isTypeSupported\<close>, the events each file's video
  element fires, and the \<^verbatim>\<open>dataavailable\<close> events of the recorder in arrival order (the
  \<^verbatim>\<open>stop\<close> event follows the last of them).
\<close>

record host =
  canvasContext :: bool
  audioState :: audio_state
  isTypeSupported :: "string \<Rightarrow> bool"
  media :: "js_file \<Rightarrow> video_event list"
  recorded :: "blob list"

subsection \<open>The frame compositor: \<^verbatim>\<open>drawFrame\<close>\<close>

text \<open>
  \<^verbatim>\<open>drawFrame\<close> returns at once when the video is paused or has ended. Otherwise it
  clears the target, computes the rectangle, draws and asks for the next animation frame.
  There is no other guard. The result is the list of calls it makes.
\<close>

definition drawFrame :: "nat \<Rightarrow> nat \<Rightarrow> frame \<Rightarrow> host_call list" where
  "drawFrame width height video =
     (if paused video \<or> ended video then []
      else
        let scale = js_min (js_div (num width) (num (videoWidth video)))
                           (js_div (num height) (num (videoHeight video)));
            w = js_mul (num (videoWidth video)) scale;
            h = js_mul (num (videoHeight video)) scale;
            x = js_div (js_sub (num width) w) (Num 2);
            y = js_div (js_sub (num height) h) (Num 2)
        in [FillStyle ''#000000'', FillRect (Num 0) (Num 0) (num width) (num height),
            DrawImage x y w h, RequestAnimationFrame])"

subsection \<open>The per-clip driver: \<^verbatim>\<open>playVideoToCanvas\<close>\<close>

datatype audio_source = MediaElementSource

text \<open>
  The state the handlers of one clip share: the variable \<^verbatim>\<open>source\<close>, the state of the
  promise, and the calls made so far.
\<close>

record driver =
  source :: "audio_source option"
  settled :: "unit outcome"
  calls :: "host_call list"

text \<open>\<^verbatim>\<open>resolve\<close> and \<^verbatim>\<open>reject\<close> settle the promise once; a later call changes nothing.\<close>

definition settle :: "unit outcome \<Rightarrow> driver \<Rightarrow> driver" where
  "settle r st = (if settled st = Pending then st\<lparr>settled := r\<rparr> else st)"

text \<open>
  \<^verbatim>\<open>video.onloadedmetadata\<close>: the \<^verbatim>\<open>try\<close> block assigns \<^verbatim>\<open>source\<close> as soon as
  \<^verbatim>\<open>createMediaElementSource\<close> has returned; the \<^verbatim>\<open>catch\<close> block warns; \<^verbatim>\<open>video.play()\<close>
  is called in every case.
\<close>

definition onloadedmetadata :: "attach_outcome \<Rightarrow> driver \<Rightarrow> driver" where
  "onloadedmetadata a st =
     (case a of
        AttachOk \<Rightarrow>
          st\<lparr>source := Some MediaElementSource,
             calls := calls st @ [CreateMediaElementSource, Connect, Play]\<rparr>
      | CreateThrows \<Rightarrow>
          st\<lparr>calls := calls st @ [ConsoleWarn, Play]\<rparr>
      | ConnectThrows \<Rightarrow>
          st\<lparr>source := Some MediaElementSource,
             calls := calls st @ [CreateMediaElementSource, ConsoleWarn, Play]\<rparr>)"

definition onended :: "js_file \<Rightarrow> driver \<Rightarrow> driver" where
  "onended f st =
     settle (Fulfilled ())
       (st\<lparr>calls := calls st @ (if source st \<noteq> None then [Disconnect] else [])
                                @ [RevokeObjectURL f, Resolve]\<rparr>)"

definition onerror :: "nat \<Rightarrow> driver \<Rightarrow> driver" where
  "onerror e st =
     settle (Rejected (MediaErrorEvent e))
       (st\<lparr>calls := calls st @ (if source st \<noteq> None then [Disconnect] else [])
                                @ [Reject (MediaErrorEvent e)]\<rparr>)"

text \<open>One event runs one handler. \<^verbatim>\<open>video.play().then(drawFrame).catch(reject)\<close>.\<close>

fun dispatch :: "nat \<Rightarrow> nat \<Rightarrow> js_file \<Rightarrow> video_event \<Rightarrow> driver \<Rightarrow> driver" where
  "dispatch width height f (LoadedMetadata a) st = onloadedmetadata a st"
| "dispatch width height f (PlayFulfilled video) st =
     st\<lparr>calls := calls st @ drawFrame width height video\<rparr>"
| "dispatch width height f (PlayRejected r) st =
     settle (Rejected (PlayRejection r)) (st\<lparr>calls := calls st @ [Reject (PlayRejection r)]\<rparr>)"
| "dispatch width height f (AnimationFrame video) st =
     st\<lparr>calls := calls st @ drawFrame width height video\<rparr>"
| "dispatch width height f Ended st = onended f st"
| "dispatch width height f (ErrorEvent e) st = onerror e st"

text \<open>
  The events are handled in order until the promise settles: the caller continues from
  there. When the events run out first, the promise stays pending.
\<close>

fun deliver :: "nat \<Rightarrow> nat \<Rightarrow> js_file \<Rightarrow> video_event list \<Rightarrow> driver \<Rightarrow> driver" where
  "deliver width height f [] st = st"
| "deliver width height f (e # es) st =
     (if settled st = Pending then deliver width height f es (dispatch width height f e st)
      else st)"

definition playVideoToCanvas ::
  "host \<Rightarrow> js_file \<Rightarrow> nat \<Rightarrow> nat \<Rightarrow> unit outcome \<times> host_call list" where
  "playVideoToCanvas h f width height =
     (let st = deliver width height f (media h f)
                 \<lparr>source = None, settled = Pending, calls = [CreateVideo, CreateObjectURL f]\<rparr>
      in (settled st, calls st))"

subsection \<open>The sequencer: \<^verbatim>\<open>stitchVideos\<close>\<close>

definition mimeTypes :: "string list" where
  "mimeTypes =
     [''video/mp4;codecs=avc1,mp4a.40.2'',
      ''video/mp4;codecs=avc1'',
      ''video/mp4'',
      ''video/webm;codecs=h264'',
      ''video/webm;codecs=vp9,opus'',
      ''video/webm'']"

text \<open>
  The \<^verbatim>\<open>for ... of\<close> loop with its \<^verbatim>\<open>break\<close>; the last argument is \<^verbatim>\<open>selectedMimeType\<close>
  before the loop.
\<close>

fun pickMimeType :: "(string \<Rightarrow> bool) \<Rightarrow> string list \<Rightarrow> string \<Rightarrow> string" where
  "pickMimeType supported [] selected = selected"
| "pickMimeType supported (t # ts) selected =
     (if supported t then t else pickMimeType supported ts selected)"

text \<open>The loop and the fallback after it; \<^verbatim>\<open>!selectedMimeType\<close> holds of the empty string.\<close>

definition selectedMimeType :: "(string \<Rightarrow> bool) \<Rightarrow> string" where
  "selectedMimeType supported =
     (let selected = pickMimeType supported mimeTypes []
      in if selected = [] then ''video/webm'' else selected)"

text \<open>\<^verbatim>\<open>mediaRecorder.ondataavailable\<close>, on the array \<^verbatim>\<open>chunks\<close>.\<close>

definition ondataavailable :: "blob list \<Rightarrow> blob \<Rightarrow> blob list" where
  "ondataavailable chunks e = (if 0 < size_blob e then chunks @ [e] else chunks)"

text \<open>
  The loop over the clips, from index \<open>i\<close> on: one progress report, then the driver is
  awaited. A rejection leaves the loop and \<^verbatim>\<open>stitchVideos\<close> with it; a promise that never
  settles stops the run there.
\<close>

fun processClips :: "host \<Rightarrow> nat \<Rightarrow> nat \<Rightarrow> VideoFile list \<Rightarrow> unit outcome \<times> host_call list" where
  "processClips h len i [] = (Fulfilled (), [])"
| "processClips h len i (videoFile # rest) =
     (let progress = OnProgress \<lparr>currentClipIndex = i + 1, totalClips = len,
                                statusMessage = ProcessingClip (i + 1) (name videoFile)\<rparr>
      in case playVideoToCanvas h (file' videoFile) CANVAS_WIDTH CANVAS_HEIGHT of
           (Fulfilled _, cs) \<Rightarrow>
             (case processClips h len (i + 1) rest of (r, cs') \<Rightarrow> (r, progress # cs @ cs'))
         | (Rejected e, cs) \<Rightarrow> (Rejected e, progress # cs)
         | (Pending, cs) \<Rightarrow> (Pending, progress # cs))"

text \<open>
  \<^verbatim>\<open>stitchVideos\<close>. After \<^verbatim>\<open>await audioCtx.resume()\<close> the context is running. The
  \<^verbatim>\<open>stop\<close> event comes after every \<^verbatim>\<open>dataavailable\<close> event.
\<close>

definition stitchVideos :: "host \<Rightarrow> VideoFile list \<Rightarrow> blob outcome \<times> host_call list" where
  "stitchVideos h videos =
     (if length videos = 0 then (Rejected (Error ''No videos to stitch''), [])
      else if \<not> canvasContext h then
        (Rejected (Error ''Could not create canvas context''),
         [CreateCanvas CANVAS_WIDTH CANVAS_HEIGHT, GetContext2D])
      else
        let mimeType = selectedMimeType (isTypeSupported h);
            state = (if audioState h = Suspended then Running else audioState h);
            prelude =
              [CreateCanvas CANVAS_WIDTH CANVAS_HEIGHT, GetContext2D,
               FillStyle ''#000000'',
               FillRect (Num 0) (Num 0) (num CANVAS_WIDTH) (num CANVAS_HEIGHT),
               NewAudioContext, CreateMediaStreamDestination]
              @ (if audioState h = Suspended then [AudioResume] else [])
              @ [CaptureStream VIDEO_FRAME_RATE, NewMediaStream,
                 ConsoleLog (''Using mime type: '' @ mimeType),
                 NewMediaRecorder mimeType, RecorderStart]
        in case processClips h (length videos) 0 videos of
             (Fulfilled _, cs) \<Rightarrow>
               (let chunks = foldl ondataavailable [] (recorded h);
                    blob = newBlob chunks mimeType
                in (Fulfilled blob,
                    prelude @ cs
                    @ [OnProgress \<lparr>currentClipIndex = length videos, totalClips = length videos,
                                   statusMessage = Finalizing\<rparr>,
                       RecorderStop, NewBlob blob]
                    @ (if state \<noteq> Closed then [AudioClose] else [])))
           | (Rejected e, cs) \<Rightarrow> (Rejected e, prelude @ cs)
           | (Pending, cs) \<Rightarrow> (Pending, prelude @ cs))"

subsection \<open>Reading a trace\<close>

text \<open>The progress reports of a trace, in order.\<close>

fun progressCalls :: "host_call list \<Rightarrow> ProcessingProgress list" where
  "progressCalls [] = []"
| "progressCalls (OnProgress p # cs) = p # progressCalls cs"
| "progressCalls (c # cs) = progressCalls cs"

text \<open>
  The files whose playback was started, in order: the driver creates one object URL per
  call, first thing.
\<close>

fun startedClips :: "host_call list \<Rightarrow> js_file list" where
  "startedClips [] = []"
| "startedClips (CreateObjectURL f # cs) = f # startedClips cs"
| "startedClips (c # cs) = startedClips cs"

text \<open>The calls that concern the audio of a clip.\<close>

fun isAudioCall :: "host_call \<Rightarrow> bool" where
  "isAudioCall CreateMediaElementSource = True"
| "isAudioCall Connect = True"
| "isAudioCall ConsoleWarn = True"
| "isAudioCall Disconnect = True"
| "isAudioCall c = False"

text \<open>
  The same event in a browser where attaching the audio succeeds; a run is compared with
  the run in which every attach succeeds.
\<close>

fun audible :: "video_event \<Rightarrow> video_event" where
  "audible (LoadedMetadata a) = LoadedMetadata AttachOk"
| "audible e = e"

subsection \<open>Example runs\<close>

text \<open>
  A browser that supports the two WebM candidates, starts its audio context suspended,
  and delivers three chunks, the second one empty. File 2 has no usable audio, file 3
  fails while playing, every other file plays to its end.
\<close>

definition exampleFrame :: frame where
  "exampleFrame = \<lparr>paused = False, ended = False, videoWidth = 2560, videoHeight = 720\<rparr>"

definition exampleClip :: "nat \<Rightarrow> VideoFile" where
  "exampleClip n =
     \<lparr>id' = ''id'', file' = File n, previewUrl = ''blob:preview'', duration = 0,
      name = ''clip.mp4''\<rparr>"

definition exampleHost :: host where
  "exampleHost =
     \<lparr>canvasContext = True,
      audioState = Suspended,
      isTypeSupported = (\<lambda>t. t = ''video/webm;codecs=vp9,opus'' \<or> t = ''video/webm''),
      media = (\<lambda>f.
        if f = File 2 then
          [LoadedMetadata CreateThrows, PlayFulfilled exampleFrame, Ended]
        else if f = File 3 then
          [LoadedMetadata AttachOk, PlayFulfilled exampleFrame, ErrorEvent 7]
        else
          [LoadedMetadata AttachOk, PlayFulfilled exampleFrame, AnimationFrame exampleFrame,
           Ended]),
      recorded =
        [\<lparr>bytes = [1, 2], mime = ''video/webm''\<rparr>,
         \<lparr>bytes = [], mime = ''video/webm''\<rparr>,
         \<lparr>bytes = [3], mime = ''video/webm''\<rparr>]\<rparr>"

section \<open>Properties\<close>

subsection \<open>Rounding to a double\<close>

lemma round_half_even_error: "\<bar>of_int (round_half_even y) - y\<bar> \<le> 1 / 2"
proof -
  have "of_int \<lfloor>y\<rfloor> \<le> y" "y < of_int \<lfloor>y\<rfloor> + 1"
    by linarith+
  then show ?thesis
    by (auto simp: round_half_even_def Let_def abs_le_iff)
qed

lemma of_int_less_powi_bitlen:
  assumes "0 < (n::int)"
  shows "(of_int n :: rat) < 2 powi bitlen n" and "(2::rat) powi (bitlen n - 1) \<le> of_int n"
proof -
  from bitlen_bounds [OF assms]
  have lo: "2 ^ nat (bitlen n - 1) \<le> n" and hi: "n < 2 ^ nat (bitlen n)"
    by blast+
  have pos: "1 \<le> bitlen n"
    using assms bitlen_eq_zero_iff [of n] bitlen_nonneg [of n] by linarith
  have "(of_int n :: rat) < of_int (2 ^ nat (bitlen n))"
    using hi by (simp only: of_int_less_iff)
  then show "(of_int n :: rat) < 2 powi bitlen n"
    using pos by (simp add: power_int_def)
  have "(of_int (2 ^ nat (bitlen n - 1)) :: rat) \<le> of_int n"
    using lo by (simp only: of_int_le_iff)
  then show "(2::rat) powi (bitlen n - 1) \<le> of_int n"
    using pos by (simp add: power_int_def)
qed

text \<open>\<^const>\<open>binade\<close> is the exponent it is meant to be.\<close>

lemma binade_bounds:
  assumes "x \<noteq> 0"
  shows "2 powi binade x \<le> \<bar>x\<bar>" and "\<bar>x\<bar> < 2 powi (binade x + 1)"
proof -
  obtain n d where q: "quotient_of \<bar>x\<bar> = (n, d)"
    by (cases "quotient_of \<bar>x\<bar>")
  have d: "0 < d" using q by (rule quotient_of_denom_pos)
  have x: "\<bar>x\<bar> = of_int n / of_int d" using q by (rule quotient_of_div)
  have n: "0 < n"
  proof -
    have "0 < \<bar>x\<bar>" using assms by simp
    then have "0 < (of_int n :: rat) / of_int d" using x by simp
    then show ?thesis using d by (simp add: zero_less_divide_iff)
  qed
  define k where "k = bitlen n - bitlen d"
  have dpos: "0 < (of_int d :: rat)" using d by simp
  have up: "\<bar>x\<bar> < 2 powi (k + 1)"
  proof -
    have "(of_int n :: rat) < 2 powi bitlen n"
      using n by (rule of_int_less_powi_bitlen)
    also have "\<dots> = 2 powi (k + 1) * 2 powi (bitlen d - 1)"
      by (simp add: k_def flip: power_int_add)
    also have "\<dots> \<le> 2 powi (k + 1) * of_int d"
      using of_int_less_powi_bitlen(2) [OF d] by (intro mult_left_mono) simp_all
    finally show ?thesis
      using dpos by (simp add: x pos_divide_less_eq)
  qed
  have low: "2 powi (k - 1) < \<bar>x\<bar>"
  proof -
    have "2 powi (k - 1) * (of_int d :: rat) < 2 powi (k - 1) * 2 powi bitlen d"
      using of_int_less_powi_bitlen(1) [OF d] by (intro mult_strict_left_mono) simp_all
    also have "\<dots> = 2 powi (bitlen n - 1)"
      by (simp add: k_def flip: power_int_add)
    also have "\<dots> \<le> of_int n"
      using n by (rule of_int_less_powi_bitlen)
    finally show ?thesis
      using dpos by (simp add: x pos_less_divide_eq)
  qed
  have b: "binade x = (if 2 powi k \<le> \<bar>x\<bar> then k else k - 1)"
    by (simp add: binade_def q k_def Let_def)
  show "2 powi binade x \<le> \<bar>x\<bar>"
    using low by (simp add: b)
  show "\<bar>x\<bar> < 2 powi (binade x + 1)"
    using up by (simp add: b not_le)
qed

lemma round_double_zero: "round_double 0 = 0"
  by (simp add: round_double_def)

text \<open>The error of one rounding: half a quantum, whatever the size of \<open>x\<close>.\<close>

lemma round_double_abs_error:
  "\<bar>round_double x - x\<bar> \<le> \<bar>x\<bar> / 2 ^ 53 + 1 / 2 ^ 1075"
proof (cases "x = 0")
  case True
  then show ?thesis by (simp add: round_double_def)
next
  case False
  define e where "e = max (binade x) (- 1022)"
  define q :: rat where "q = 2 powi (e - 52)"
  have qpos: "0 < q" by (simp add: q_def)
  have rd: "round_double x = of_int (round_half_even (x / q)) * q"
    using False by (simp add: round_double_def q_def e_def Let_def)
  have "round_double x - x = (of_int (round_half_even (x / q)) - x / q) * q"
    using qpos by (simp add: rd left_diff_distrib)
  then have "\<bar>round_double x - x\<bar> = \<bar>of_int (round_half_even (x / q)) - x / q\<bar> * q"
    using qpos by (simp add: abs_mult)
  also have "\<dots> \<le> 1 / 2 * q"
    using qpos round_half_even_error [of "x / q"] by (intro mult_right_mono) simp_all
  also have "\<dots> = 2 powi (e - 53)"
    by (simp add: q_def power_int_diff)
  also have "\<dots> \<le> \<bar>x\<bar> / 2 ^ 53 + 1 / 2 ^ 1075"
  proof (cases "- 1022 \<le> binade x")
    case True
    then have "e = binade x" by (simp add: e_def)
    then have "(2::rat) powi (e - 53) = 2 powi binade x / 2 ^ 53"
      by (simp add: power_int_diff)
    also have "\<dots> \<le> \<bar>x\<bar> / 2 ^ 53"
      using binade_bounds(1) [OF False] by (intro divide_right_mono) simp_all
    finally show ?thesis by simp
  next
    case False
    then have "e = - 1022" by (simp add: e_def)
    then have "(2::rat) powi (e - 53) = 1 / 2 ^ 1075"
      by (simp add: power_int_minus_divide)
    then show ?thesis by simp
  qed
  finally show ?thesis .
qed

text \<open>In the normal range the error is relative.\<close>

lemma round_double_rel_error:
  assumes "2 powi (- 1022) \<le> \<bar>x\<bar>"
  shows "\<bar>round_double x - x\<bar> \<le> \<bar>x\<bar> / 2 ^ 53"
proof -
  define m :: int where "m = - 1022"
  have small: "2 powi m \<le> \<bar>x\<bar>"
    using assms by (simp only: m_def)
  have mpos: "0 < (2::rat) powi m"
    by (rule zero_less_power_int) simp
  have nz: "x \<noteq> 0"
  proof
    assume "x = 0"
    then have "\<bar>x\<bar> = 0" by simp
    with small mpos show False by linarith
  qed
  have lt: "(2::rat) powi m < 2 powi (binade x + 1)"
    using small binade_bounds(2) [OF nz] by (rule le_less_trans)
  have "\<not> binade x + 1 \<le> m"
  proof
    assume "binade x + 1 \<le> m"
    then have "(2::rat) powi (binade x + 1) \<le> 2 powi m"
      by (rule power_int_increasing) simp
    with lt show False by simp
  qed
  then have e: "max (binade x) (- 1022) = binade x"
    by (simp add: m_def)
  define q :: rat where "q = 2 powi (binade x - 52)"
  have qpos: "0 < q" by (simp add: q_def)
  have rd: "round_double x = of_int (round_half_even (x / q)) * q"
    using nz by (simp add: round_double_def q_def e Let_def)
  have "round_double x - x = (of_int (round_half_even (x / q)) - x / q) * q"
    using qpos by (simp add: rd left_diff_distrib)
  then have "\<bar>round_double x - x\<bar> = \<bar>of_int (round_half_even (x / q)) - x / q\<bar> * q"
    using qpos by (simp add: abs_mult)
  also have "\<dots> \<le> 1 / 2 * q"
    using qpos round_half_even_error [of "x / q"] by (intro mult_right_mono) simp_all
  also have "\<dots> = 2 powi binade x / 2 ^ 53"
    by (simp add: q_def power_int_diff)
  also have "\<dots> \<le> \<bar>x\<bar> / 2 ^ 53"
    using binade_bounds(1) [OF nz] by (intro divide_right_mono) simp_all
  finally show ?thesis .
qed

lemma round_double_nonneg_bounds:
  assumes "x = 0 \<or> 2 powi (- 1022) \<le> x" and "0 \<le> x"
  shows "x - x / 2 ^ 53 \<le> round_double x" and "round_double x \<le> x + x / 2 ^ 53"
proof -
  have "\<bar>round_double x - x\<bar> \<le> x / 2 ^ 53"
  proof (cases "x = 0")
    case True
    then show ?thesis by (simp add: round_double_zero)
  next
    case False
    then have "2 powi (- 1022) \<le> \<bar>x\<bar>"
      using assms by simp
    then have "\<bar>round_double x - x\<bar> \<le> \<bar>x\<bar> / 2 ^ 53"
      by (rule round_double_rel_error)
    then show ?thesis using assms(2) by simp
  qed
  then show "x - x / 2 ^ 53 \<le> round_double x" and "round_double x \<le> x + x / 2 ^ 53"
    by linarith+
qed

subsection \<open>Negotiation and the chunk buffer\<close>

lemma pickMimeType_first:
  assumes "i < length ts" and "supported (ts ! i)" and "\<forall>j<i. \<not> supported (ts ! j)"
  shows "pickMimeType supported ts sel = ts ! i"
  using assms
proof (induction ts arbitrary: i)
  case Nil
  then show ?case by simp
next
  case (Cons t ts)
  show ?case
  proof (cases i)
    case 0
    with Cons.prems show ?thesis by simp
  next
    case (Suc k)
    with Cons.prems have "\<not> supported t" by auto
    moreover have "pickMimeType supported ts sel = ts ! k"
      using Cons.prems Suc by (intro Cons.IH) auto
    ultimately show ?thesis using Suc by simp
  qed
qed

lemma pickMimeType_none:
  "\<forall>t\<in>set ts. \<not> supported t \<Longrightarrow> pickMimeType supported ts sel = sel"
  by (induction ts) auto

lemma mimeTypes_nonempty: "[] \<notin> set mimeTypes"
  by (simp add: mimeTypes_def)

lemma selectedMimeType_first:
  assumes "i < length mimeTypes" and "supported (mimeTypes ! i)"
    and "\<forall>j<i. \<not> supported (mimeTypes ! j)"
  shows "selectedMimeType supported = mimeTypes ! i"
proof -
  have "pickMimeType supported mimeTypes [] = mimeTypes ! i"
    using assms by (rule pickMimeType_first)
  moreover have "mimeTypes ! i \<noteq> []"
    using assms(1) mimeTypes_nonempty by (metis nth_mem)
  ultimately show ?thesis by (simp add: selectedMimeType_def)
qed

lemma selectedMimeType_none:
  "\<forall>t\<in>set mimeTypes. \<not> supported t \<Longrightarrow> selectedMimeType supported = ''video/webm''"
  by (simp add: selectedMimeType_def pickMimeType_none)

lemma foldl_ondataavailable:
  "foldl ondataavailable acc es = acc @ filter (\<lambda>c. 0 < size_blob c) es"
  by (induction es arbitrary: acc) (auto simp: ondataavailable_def)

lemma stitchVideos_Fulfilled:
  assumes "fst (stitchVideos h videos) = Fulfilled b"
  shows "b = newBlob (foldl ondataavailable [] (recorded h))
                     (selectedMimeType (isTypeSupported h))"
  using assms
  by (auto simp: stitchVideos_def Let_def split: if_splits prod.splits outcome.splits)

lemma exampleHost_selected:
  "selectedMimeType (isTypeSupported exampleHost) = ''video/webm;codecs=vp9,opus''"
  by (simp add: exampleHost_def selectedMimeType_def mimeTypes_def)

subsection \<open>The example run, evaluated\<close>

lemma exampleHost_simps:
  "canvasContext exampleHost" "audioState exampleHost = Suspended"
  "media exampleHost (File 0) =
     [LoadedMetadata AttachOk, PlayFulfilled exampleFrame, AnimationFrame exampleFrame, Ended]"
  "media exampleHost (File 2) =
     [LoadedMetadata CreateThrows, PlayFulfilled exampleFrame, Ended]"
  "media exampleHost (File 3) =
     [LoadedMetadata AttachOk, PlayFulfilled exampleFrame, ErrorEvent 7]"
  "recorded exampleHost =
     [\<lparr>bytes = [1, 2], mime = ''video/webm''\<rparr>, \<lparr>bytes = [], mime = ''video/webm''\<rparr>,
      \<lparr>bytes = [3], mime = ''video/webm''\<rparr>]"
  by (simp_all add: exampleHost_def)

text \<open>The arithmetic of \<^verbatim>\<open>drawFrame\<close> on the 1280 by 720 target, one operation at a time.\<close>

lemma fit_2560_720:
  "js_min (js_div (Num 1280) (Num 2560)) (js_div (Num 720) (Num 720)) = Num (1 / 2)"
  "js_mul (Num 2560) (Num (1 / 2)) = Num 1280"
  "js_mul (Num 720) (Num (1 / 2)) = Num 360"
  "js_div (js_sub (Num 1280) (Num 1280)) (Num 2) = Num 0"
  "js_div (js_sub (Num 720) (Num 360)) (Num 2) = Num 180"
  by code_simp+

lemma drawFrame_exampleFrame:
  "drawFrame 1280 720 exampleFrame =
     [FillStyle ''#000000'', FillRect (Num 0) (Num 0) (Num 1280) (Num 720),
      DrawImage (Num 0) (Num 180) (Num 1280) (Num 360), RequestAnimationFrame]"
  by (simp add: drawFrame_def exampleFrame_def num_def Let_def fit_2560_720
      del: js_div.simps js_mul.simps js_sub.simps js_min.simps)

lemma exampleHost_File0:
  "playVideoToCanvas exampleHost (File 0) 1280 720 =
     (Fulfilled (),
      [CreateVideo, CreateObjectURL (File 0), CreateMediaElementSource, Connect, Play]
      @ drawFrame 1280 720 exampleFrame @ drawFrame 1280 720 exampleFrame
      @ [Disconnect, RevokeObjectURL (File 0), Resolve])"
  by (simp add: playVideoToCanvas_def exampleHost_simps onloadedmetadata_def onended_def
      settle_def)

lemma exampleHost_clip0:
  "processClips exampleHost len i [exampleClip 0] =
     (Fulfilled (),
      OnProgress \<lparr>currentClipIndex = i + 1, totalClips = len,
                  statusMessage = ProcessingClip (i + 1) ''clip.mp4''\<rparr>
      # snd (playVideoToCanvas exampleHost (File 0) 1280 720))"
  by (simp add: exampleClip_def CANVAS_WIDTH_def CANVAS_HEIGHT_def exampleHost_File0)

lemma exampleHost_chunks:
  "foldl ondataavailable [] (recorded exampleHost) =
     [\<lparr>bytes = [1, 2], mime = ''video/webm''\<rparr>, \<lparr>bytes = [3], mime = ''video/webm''\<rparr>]"
  by (simp add: exampleHost_simps ondataavailable_def size_blob_def)

lemma exampleHost_run0:
  "fst (stitchVideos exampleHost [exampleClip 0]) =
     Fulfilled \<lparr>bytes = [1, 2, 3], mime = ''video/webm;codecs=vp9,opus''\<rparr>"
  by (simp add: stitchVideos_def exampleHost_simps(1,2) exampleHost_clip0 exampleHost_chunks
      exampleHost_selected newBlob_def Let_def del: processClips.simps)

subsection \<open>The encoder: negotiation and chunks\<close>

text \<open>
  C6. The negotiation selects the first candidate of the fixed list that the host reports
  as supported. When the host supports none of them the selection is \<^verbatim>\<open>video/webm\<close>; the
  negotiation itself never fails. Whenever the run is fulfilled, the type of the blob it
  is fulfilled with is exactly the selected type.
\<close>

theorem mime_negotiation:
  "(\<forall>i<length mimeTypes.
      supported (mimeTypes ! i) \<and> (\<forall>j<i. \<not> supported (mimeTypes ! j))
      \<longrightarrow> selectedMimeType supported = mimeTypes ! i)
   \<and> ((\<forall>t\<in>set mimeTypes. \<not> supported t) \<longrightarrow> selectedMimeType supported = ''video/webm'')
   \<and> (\<forall>b. fst (stitchVideos h videos) = Fulfilled b
          \<longrightarrow> mime b = selectedMimeType (isTypeSupported h))"
proof (intro conjI allI impI)
  fix i assume "i < length mimeTypes"
    and "supported (mimeTypes ! i) \<and> (\<forall>j<i. \<not> supported (mimeTypes ! j))"
  then show "selectedMimeType supported = mimeTypes ! i"
    by (simp add: selectedMimeType_first)
next
  assume "\<forall>t\<in>set mimeTypes. \<not> supported t"
  then show "selectedMimeType supported = ''video/webm''"
    by (rule selectedMimeType_none)
next
  fix b assume "fst (stitchVideos h videos) = Fulfilled b"
  from stitchVideos_Fulfilled [OF this]
  show "mime b = selectedMimeType (isTypeSupported h)"
    by (simp add: newBlob_def)
qed

theorem mime_negotiation_witness:
  "selectedMimeType (isTypeSupported exampleHost) = mimeTypes ! 4
   \<and> selectedMimeType (\<lambda>t. False) = ''video/webm''
   \<and> fst (stitchVideos exampleHost [exampleClip 0]) =
       Fulfilled \<lparr>bytes = [1, 2, 3], mime = ''video/webm;codecs=vp9,opus''\<rparr>
   \<and> mime \<lparr>bytes = [1, 2, 3], mime = ''video/webm;codecs=vp9,opus''\<rparr> =
       selectedMimeType (isTypeSupported exampleHost)"
proof -
  have sup: "(4::nat) < length mimeTypes"
    "isTypeSupported exampleHost (mimeTypes ! 4)
     \<and> (\<forall>j<4. \<not> isTypeSupported exampleHost (mimeTypes ! j))"
    by (simp_all add: mimeTypes_def exampleHost_def less_Suc_eq numeral_nat)
  have none: "\<forall>t\<in>set mimeTypes. \<not> (\<lambda>t. False) t" by simp
  have a: "selectedMimeType (isTypeSupported exampleHost) = mimeTypes ! 4"
    using mime_negotiation [of "isTypeSupported exampleHost" exampleHost "[exampleClip 0]"] sup
    by blast
  have b: "selectedMimeType (\<lambda>t. False) = ''video/webm''"
    using mime_negotiation [of "\<lambda>t. False" exampleHost "[exampleClip 0]"] none
    by blast
  have c: "mime \<lparr>bytes = [1, 2, 3], mime = ''video/webm;codecs=vp9,opus''\<rparr> =
       selectedMimeType (isTypeSupported exampleHost)"
    using mime_negotiation [of "isTypeSupported exampleHost" exampleHost "[exampleClip 0]"]
      exampleHost_run0 by blast
  from a b c exampleHost_run0 show ?thesis by blast
qed

text \<open>
  C9. A chunk of size zero leaves the buffer as it is and a chunk of positive size is
  appended, so after any sequence of arrivals the buffer holds exactly the chunks of
  positive size, in arrival order; the blob of a fulfilled run is their concatenation.
\<close>

theorem chunk_buffer:
  "(size_blob e = 0 \<longrightarrow> ondataavailable chunks e = chunks)
   \<and> (0 < size_blob e \<longrightarrow> ondataavailable chunks e = chunks @ [e])
   \<and> foldl ondataavailable [] es = filter (\<lambda>c. 0 < size_blob c) es
   \<and> (\<forall>b. fst (stitchVideos h videos) = Fulfilled b \<longrightarrow>
         bytes b = concat (map bytes (filter (\<lambda>c. 0 < size_blob c) (recorded h))))"
proof (intro conjI allI impI)
  fix b assume "fst (stitchVideos h videos) = Fulfilled b"
  from stitchVideos_Fulfilled [OF this]
  show "bytes b = concat (map bytes (filter (\<lambda>c. 0 < size_blob c) (recorded h)))"
    by (simp add: newBlob_def foldl_ondataavailable)
qed (simp_all add: ondataavailable_def foldl_ondataavailable)

theorem chunk_buffer_witness:
  "size_blob \<lparr>bytes = [], mime = ''video/webm''\<rparr> = 0
   \<and> ondataavailable [\<lparr>bytes = [1, 2], mime = ''video/webm''\<rparr>] \<lparr>bytes = [], mime = ''video/webm''\<rparr>
       = [\<lparr>bytes = [1, 2], mime = ''video/webm''\<rparr>]
   \<and> 0 < size_blob \<lparr>bytes = [3], mime = ''video/webm''\<rparr>
   \<and> ondataavailable [\<lparr>bytes = [1, 2], mime = ''video/webm''\<rparr>] \<lparr>bytes = [3], mime = ''video/webm''\<rparr>
       = [\<lparr>bytes = [1, 2], mime = ''video/webm''\<rparr>, \<lparr>bytes = [3], mime = ''video/webm''\<rparr>]
   \<and> fst (stitchVideos exampleHost [exampleClip 0]) =
       Fulfilled \<lparr>bytes = [1, 2, 3], mime = ''video/webm;codecs=vp9,opus''\<rparr>
   \<and> bytes \<lparr>bytes = [1, 2, 3], mime = ''video/webm;codecs=vp9,opus''\<rparr> =
       concat (map bytes (filter (\<lambda>c. 0 < size_blob c) (recorded exampleHost)))"
proof -
  let ?a = "\<lparr>bytes = [1, 2], mime = ''video/webm''\<rparr>"
  let ?z = "\<lparr>bytes = [], mime = ''video/webm''\<rparr>"
  let ?c = "\<lparr>bytes = [3], mime = ''video/webm''\<rparr>"
  have z: "size_blob ?z = 0" and c: "0 < size_blob ?c"
    by (simp_all add: size_blob_def)
  have 1: "ondataavailable [?a] ?z = [?a]"
    using chunk_buffer [of ?z "[?a]" "[]" exampleHost "[exampleClip 0]"] z by blast
  have 2: "ondataavailable [?a] ?c = [?a, ?c]"
    using chunk_buffer [of ?c "[?a]" "[]" exampleHost "[exampleClip 0]"] c by simp
  have 3: "bytes \<lparr>bytes = [1, 2, 3], mime = ''video/webm;codecs=vp9,opus''\<rparr> =
       concat (map bytes (filter (\<lambda>c. 0 < size_blob c) (recorded exampleHost)))"
    using chunk_buffer [of ?z "[?a]" "[]" exampleHost "[exampleClip 0]"] exampleHost_run0
    by blast
  from z c 1 2 3 exampleHost_run0 show ?thesis by blast
qed

subsection \<open>Failures before the encoder starts\<close>

text \<open>
  C5. For the empty clip list \<^verbatim>\<open>stitchVideos\<close> fails with the error "No videos to stitch"
  before anything is set up: the trace of browser calls is empty, so no canvas, audio
  context, stream or recorder has been created and the recorder has not been started.
\<close>

theorem stitchVideos_empty_input:
  "stitchVideos h [] = (Rejected (Error ''No videos to stitch''), [])"
  by (simp add: stitchVideos_def)

text \<open>
  C10. When the canvas gives no 2D context, \<^verbatim>\<open>stitchVideos\<close> throws "Could not create
  canvas context" right after creating the canvas and asking for the context: no audio
  context, destination node, capture stream or recorder has been created by then.
\<close>

theorem stitchVideos_no_canvas_context:
  assumes "videos \<noteq> []" and "\<not> canvasContext h"
  shows "stitchVideos h videos =
           (Rejected (Error ''Could not create canvas context''),
            [CreateCanvas CANVAS_WIDTH CANVAS_HEIGHT, GetContext2D])
         \<and> NewAudioContext \<notin> set (snd (stitchVideos h videos))
         \<and> CreateMediaStreamDestination \<notin> set (snd (stitchVideos h videos))
         \<and> (\<forall>r. CaptureStream r \<notin> set (snd (stitchVideos h videos)))
         \<and> (\<forall>m. NewMediaRecorder m \<notin> set (snd (stitchVideos h videos)))
         \<and> RecorderStart \<notin> set (snd (stitchVideos h videos))"
  using assms by (simp add: stitchVideos_def)

theorem stitchVideos_no_canvas_context_witness:
  "[exampleClip 0] \<noteq> [] \<and> \<not> canvasContext (exampleHost\<lparr>canvasContext := False\<rparr>)
   \<and> stitchVideos (exampleHost\<lparr>canvasContext := False\<rparr>) [exampleClip 0] =
       (Rejected (Error ''Could not create canvas context''), [CreateCanvas 1280 720, GetContext2D])"
  using stitchVideos_no_canvas_context
          [of "[exampleClip 0]" "exampleHost\<lparr>canvasContext := False\<rparr>"]
  by (simp add: CANVAS_WIDTH_def CANVAS_HEIGHT_def)

subsection \<open>The frame compositor\<close>

lemma drawFrame_finite:
  assumes "\<not> paused video" and "\<not> ended video"
    and "0 < videoWidth video" and "0 < videoHeight video"
  shows "drawFrame width height video =
     (let s = min (round_double (of_nat width / of_nat (videoWidth video)))
                  (round_double (of_nat height / of_nat (videoHeight video)));
          w = round_double (of_nat (videoWidth video) * s);
          h = round_double (of_nat (videoHeight video) * s)
      in [FillStyle ''#000000'', FillRect (Num 0) (Num 0) (num width) (num height),
          DrawImage (Num (round_double (round_double (of_nat width - w) / 2)))
                    (Num (round_double (round_double (of_nat height - h) / 2)))
                    (Num w) (Num h),
          RequestAnimationFrame])"
  using assms by (simp add: drawFrame_def num_def Let_def)

text \<open>The quotient of two unsigned longs is zero or in the normal range of a double.\<close>

lemma ratio_normal:
  fixes n m :: nat
  assumes "0 < m" and "m < 2 ^ 32"
  shows "(of_nat n / of_nat m :: rat) = 0 \<or> 2 powi (- 1022) \<le> (of_nat n / of_nat m :: rat)"
proof (cases "n = 0")
  case True
  then show ?thesis by simp
next
  case False
  have m: "(of_nat m :: rat) \<le> 2 ^ 32"
    using assms(2) by (metis less_imp_le of_nat_le_iff of_nat_numeral of_nat_power)
  have n: "(1::rat) \<le> of_nat n"
    using False by simp
  have "(2::rat) powi (- 1022) \<le> 1 / 2 ^ 32"
    by (simp add: power_int_minus_divide)
  also have "\<dots> \<le> of_nat n / of_nat m"
    using m n assms(1) by (intro frac_le) simp_all
  finally show ?thesis by simp
qed

lemma scale_near:
  fixes W H vw vh :: nat
  assumes "0 < vw" and "0 < vh" and "vw < 2 ^ 32" and "vh < 2 ^ 32"
    and "W * vh < H * vw"
  shows "\<bar>min (round_double (of_nat W / of_nat vw)) (round_double (of_nat H / of_nat vh))
          - of_nat W / of_nat vw\<bar>
         \<le> (of_nat W / of_nat vw) / 2 ^ 53"
proof -
  define a :: rat where "a = of_nat W / of_nat vw"
  define b :: rat where "b = of_nat H / of_nat vh"
  have "(of_nat W :: rat) * of_nat vh < of_nat H * of_nat vw"
    using assms(5) by (metis of_nat_less_iff of_nat_mult)
  then have ab: "a \<le> b"
    using assms(1,2) by (simp add: a_def b_def field_simps)
  have a0: "0 \<le> a" by (simp add: a_def)
  have fa: "a - a / 2 ^ 53 \<le> round_double a" "round_double a \<le> a + a / 2 ^ 53"
    using round_double_nonneg_bounds [of a] ratio_normal [OF assms(1,3), of W] a0
    by (simp_all add: a_def)
  have b0: "0 \<le> b" by (simp add: b_def)
  have fb: "b - b / 2 ^ 53 \<le> round_double b"
    using round_double_nonneg_bounds [of b] ratio_normal [OF assms(2,4), of H] b0
    by (simp_all add: b_def)
  have "a - a / 2 ^ 53 \<le> b - b / 2 ^ 53"
    using ab by simp
  then have lo: "a - a / 2 ^ 53 \<le> min (round_double a) (round_double b)"
    using fa(1) fb by simp
  have hi: "min (round_double a) (round_double b) \<le> a + a / 2 ^ 53"
    using fa(2) by simp
  from lo hi have "\<bar>min (round_double a) (round_double b) - a\<bar> \<le> a / 2 ^ 53"
    by linarith
  then show ?thesis by (simp add: a_def b_def)
qed

lemma fitted_side:
  fixes W vw :: nat and s :: rat
  assumes "0 < vw"
    and "\<bar>s - of_nat W / of_nat vw\<bar> \<le> (of_nat W / of_nat vw) / 2 ^ 53"
  shows "\<bar>round_double (of_nat vw * s) - of_nat W\<bar> \<le> of_nat W / 2 ^ 51"
proof -
  define p :: rat where "p = of_nat vw * s"
  define w :: rat where "w = of_nat W"
  have vpos: "0 < (of_nat vw :: rat)" using assms(1) by simp
  have "p - w = of_nat vw * (s - of_nat W / of_nat vw)"
    using vpos by (simp add: p_def w_def right_diff_distrib)
  then have "\<bar>p - w\<bar> = of_nat vw * \<bar>s - of_nat W / of_nat vw\<bar>"
    using vpos by (simp add: abs_mult)
  also have "\<dots> \<le> of_nat vw * ((of_nat W / of_nat vw) / 2 ^ 53)"
    using vpos assms(2) by (intro mult_left_mono) simp_all
  also have "\<dots> = w / 2 ^ 53"
    using vpos by (simp add: w_def)
  finally have near: "\<bar>p - w\<bar> \<le> w / 2 ^ 53" .
  show ?thesis
  proof (cases "W = 0")
    case True
    then have "p = 0" using near by (simp add: w_def)
    then show ?thesis using True by (simp add: p_def [symmetric] round_double_zero)
  next
    case False
    then have w1: "1 \<le> w" by (simp add: w_def)
    have plo: "w - w / 2 ^ 53 \<le> p" and phi: "p \<le> w + w / 2 ^ 53"
      using near by linarith+
    have half: "(1::rat) / 2 \<le> p"
      using plo w1 by simp
    have "(2::rat) powi (- 1022) \<le> 1 / 2"
      by (simp add: power_int_minus_divide)
    then have "2 powi (- 1022) \<le> \<bar>p\<bar>"
      using half by simp
    then have "\<bar>round_double p - p\<bar> \<le> \<bar>p\<bar> / 2 ^ 53"
      by (rule round_double_rel_error)
    then have r: "\<bar>round_double p - p\<bar> \<le> p / 2 ^ 53"
      using half by simp
    have rlo: "p - p / 2 ^ 53 \<le> round_double p" and rhi: "round_double p \<le> p + p / 2 ^ 53"
      using r by linarith+
    have "w - w / 2 ^ 51 \<le> round_double p"
      using rlo plo w1 by simp
    moreover have "round_double p \<le> w + w / 2 ^ 51"
      using rhi phi w1 by simp
    ultimately have "\<bar>round_double p - w\<bar> \<le> w / 2 ^ 51"
      by linarith
    then show ?thesis
      by (simp only: p_def w_def)
  qed
qed

lemma centred_offset:
  "\<bar>2 * round_double (round_double (a - b) / 2) - (a - b)\<bar>
     \<le> \<bar>a - b\<bar> / 2 ^ 51 + 1 / 2 ^ 1073"
proof -
  define D where "D = a - b"
  define d where "d = round_double D"
  define c where "c = round_double (d / 2)"
  define aD where "aD = \<bar>D\<bar>"
  define ad where "ad = \<bar>d\<bar>"
  define e1 where "e1 = \<bar>d - D\<bar>"
  define e2 where "e2 = \<bar>c - d / 2\<bar>"
  have 1: "e1 \<le> aD / 2 ^ 53 + 1 / 2 ^ 1075"
    unfolding e1_def aD_def d_def by (rule round_double_abs_error)
  have "\<bar>c - d / 2\<bar> \<le> \<bar>d / 2\<bar> / 2 ^ 53 + 1 / 2 ^ 1075"
    unfolding c_def by (rule round_double_abs_error)
  then have 2: "e2 \<le> ad / 2 / 2 ^ 53 + 1 / 2 ^ 1075"
    by (simp add: e2_def ad_def)
  have 3: "ad \<le> aD + e1"
    unfolding ad_def aD_def e1_def by linarith
  define P where "P = c - d / 2"
  define Q where "Q = d - D"
  have eq: "2 * c - D = (P + P) + Q"
    by (simp add: P_def Q_def)
  have "\<bar>(P + P) + Q\<bar> \<le> \<bar>P + P\<bar> + \<bar>Q\<bar>"
    by (rule abs_triangle_ineq)
  also have "\<dots> \<le> (\<bar>P\<bar> + \<bar>P\<bar>) + \<bar>Q\<bar>"
    by (intro add_right_mono abs_triangle_ineq)
  finally have "\<bar>2 * c - D\<bar> \<le> \<bar>P\<bar> + \<bar>P\<bar> + \<bar>Q\<bar>"
    by (simp only: eq)
  then have 4: "\<bar>2 * c - D\<bar> \<le> 2 * e2 + e1"
    by (simp only: e1_def e2_def P_def Q_def mult_2)
  have 5: "0 \<le> aD" by (simp add: aD_def)
  have "2 * e2 + e1 \<le> aD / 2 ^ 51 + 1 / 2 ^ 1073"
    using 1 2 3 5 by simp
  with 4 have "\<bar>2 * c - D\<bar> \<le> aD / 2 ^ 51 + 1 / 2 ^ 1073"
    by linarith
  then show ?thesis
    by (simp add: c_def d_def D_def aD_def)
qed


lemma fit_1050_400:
  "js_min (js_div (Num 1280) (Num 1050)) (js_div (Num 720) (Num 400)) = Num (1372525600722437 / 1125899906842624)"
  "js_mul (Num 1050) (Num (1372525600722437 / 1125899906842624)) = Num (5629499534213121 / 4398046511104)"
  "js_mul (Num 400) (Num (1372525600722437 / 1125899906842624)) = Num (8578285004515231 / 17592186044416)"
  "js_div (js_sub (Num 1280) (Num (5629499534213121 / 4398046511104))) (Num 2) = Num (- (1 / 8796093022208))"
  "js_div (js_sub (Num 720) (Num (8578285004515231 / 17592186044416))) (Num 2) = Num (4088088947464289 / 35184372088832)"
  by code_simp+

lemma drawFrame_1050_400:
  "drawFrame 1280 720 (exampleFrame\<lparr>videoWidth := 1050, videoHeight := 400\<rparr>) =
     [FillStyle ''#000000'', FillRect (Num 0) (Num 0) (Num 1280) (Num 720),
      DrawImage (Num (- (1 / 8796093022208))) (Num (4088088947464289 / 35184372088832))
        (Num (5629499534213121 / 4398046511104)) (Num (8578285004515231 / 17592186044416)),
      RequestAnimationFrame]"
  by (simp add: drawFrame_def exampleFrame_def num_def Let_def fit_1050_400
      del: js_div.simps js_mul.simps js_sub.simps js_min.simps)

text \<open>
  C4 (amended). For a frame with positive dimensions that is being played, all four
  dimensions being \<^verbatim>\<open>unsigned long\<close> values: when the frame is wider than the target, the
  computed draw width equals the target width up to floating-point rounding, that is with a
  relative error of at most \<open>2^-51\<close>; when the frame is taller than the target, the computed
  draw height equals the target height up to the same rounding. In both cases the
  rectangle is centred up to rounding: on each axis twice the offset differs from the
  space left over (target size minus drawn size) by at most \<open>2^-51\<close> of that space plus
  \<open>2^-1073\<close>, so the two margins are equal up to that much.
\<close>

theorem letterbox:
  assumes "\<not> paused video" and "\<not> ended video"
    and "0 < videoWidth video" and "0 < videoHeight video"
    and "videoWidth video < 2 ^ 32" and "videoHeight video < 2 ^ 32"
    and "width < 2 ^ 32" and "height < 2 ^ 32"
  shows "\<exists>x y w h.
     drawFrame width height video =
       [FillStyle ''#000000'', FillRect (Num 0) (Num 0) (num width) (num height),
        DrawImage (Num x) (Num y) (Num w) (Num h), RequestAnimationFrame]
     \<and> \<bar>2 * x - (of_nat width - w)\<bar> \<le> \<bar>of_nat width - w\<bar> / 2 ^ 51 + 1 / 2 ^ 1073
     \<and> \<bar>2 * y - (of_nat height - h)\<bar> \<le> \<bar>of_nat height - h\<bar> / 2 ^ 51 + 1 / 2 ^ 1073
     \<and> (width * videoHeight video < height * videoWidth video
          \<longrightarrow> \<bar>w - of_nat width\<bar> \<le> of_nat width / 2 ^ 51)
     \<and> (height * videoWidth video < width * videoHeight video
          \<longrightarrow> \<bar>h - of_nat height\<bar> \<le> of_nat height / 2 ^ 51)"
proof -
  define s :: rat where "s = min (round_double (of_nat width / of_nat (videoWidth video)))
                  (round_double (of_nat height / of_nat (videoHeight video)))"
  define w where "w = round_double (of_nat (videoWidth video) * s)"
  define h where "h = round_double (of_nat (videoHeight video) * s)"
  define x where "x = round_double (round_double (of_nat width - w) / 2)"
  define y where "y = round_double (round_double (of_nat height - h) / 2)"
  have draw: "drawFrame width height video =
       [FillStyle ''#000000'', FillRect (Num 0) (Num 0) (num width) (num height),
        DrawImage (Num x) (Num y) (Num w) (Num h), RequestAnimationFrame]"
    using drawFrame_finite [OF assms(1-4)]
    by (simp add: Let_def s_def w_def h_def x_def y_def)
  have cx: "\<bar>2 * x - (of_nat width - w)\<bar> \<le> \<bar>of_nat width - w\<bar> / 2 ^ 51 + 1 / 2 ^ 1073"
    unfolding x_def by (rule centred_offset)
  have cy: "\<bar>2 * y - (of_nat height - h)\<bar> \<le> \<bar>of_nat height - h\<bar> / 2 ^ 51 + 1 / 2 ^ 1073"
    unfolding y_def by (rule centred_offset)
  have wide: "\<bar>w - of_nat width\<bar> \<le> of_nat width / 2 ^ 51"
    if "width * videoHeight video < height * videoWidth video"
  proof -
    have "\<bar>s - of_nat width / of_nat (videoWidth video)\<bar>
        \<le> (of_nat width / of_nat (videoWidth video)) / 2 ^ 53"
      unfolding s_def using assms(3,4,5,6) that by (rule scale_near)
    with assms(3) show ?thesis
      unfolding w_def by (rule fitted_side)
  qed
  have tall: "\<bar>h - of_nat height\<bar> \<le> of_nat height / 2 ^ 51"
    if "height * videoWidth video < width * videoHeight video"
  proof -
    have "\<bar>min (round_double (of_nat height / of_nat (videoHeight video)))
               (round_double (of_nat width / of_nat (videoWidth video)))
           - of_nat height / of_nat (videoHeight video)\<bar>
        \<le> (of_nat height / of_nat (videoHeight video)) / 2 ^ 53"
      using assms(4,3,6,5) that by (rule scale_near)
    then have "\<bar>s - of_nat height / of_nat (videoHeight video)\<bar>
        \<le> (of_nat height / of_nat (videoHeight video)) / 2 ^ 53"
      by (simp only: s_def min.commute)
    with assms(4) show ?thesis
      unfolding h_def by (rule fitted_side)
  qed
  from draw cx cy wide tall show ?thesis by blast
qed

theorem letterbox_witness:
  "\<not> paused exampleFrame \<and> \<not> ended exampleFrame
   \<and> 0 < videoWidth exampleFrame \<and> 0 < videoHeight exampleFrame
   \<and> videoWidth exampleFrame < 2 ^ 32 \<and> videoHeight exampleFrame < 2 ^ 32
   \<and> (1280::nat) < 2 ^ 32 \<and> (720::nat) < 2 ^ 32
   \<and> 1280 * videoHeight exampleFrame < 720 * videoWidth exampleFrame
   \<and> (\<exists>x y w h.
         drawFrame 1280 720 exampleFrame =
           [FillStyle ''#000000'', FillRect (Num 0) (Num 0) (num 1280) (num 720),
            DrawImage (Num x) (Num y) (Num w) (Num h), RequestAnimationFrame]
         \<and> \<bar>2 * x - (1280 - w)\<bar> \<le> \<bar>1280 - w\<bar> / 2 ^ 51 + 1 / 2 ^ 1073
         \<and> \<bar>2 * y - (720 - h)\<bar> \<le> \<bar>720 - h\<bar> / 2 ^ 51 + 1 / 2 ^ 1073
         \<and> \<bar>w - 1280\<bar> \<le> 1280 / 2 ^ 51)
   \<and> 720 * videoWidth (exampleFrame\<lparr>videoWidth := 640\<rparr>)
       < 1280 * videoHeight (exampleFrame\<lparr>videoWidth := 640\<rparr>)
   \<and> (\<exists>x y w h.
         drawFrame 1280 720 (exampleFrame\<lparr>videoWidth := 640\<rparr>) =
           [FillStyle ''#000000'', FillRect (Num 0) (Num 0) (num 1280) (num 720),
            DrawImage (Num x) (Num y) (Num w) (Num h), RequestAnimationFrame]
         \<and> \<bar>2 * x - (1280 - w)\<bar> \<le> \<bar>1280 - w\<bar> / 2 ^ 51 + 1 / 2 ^ 1073
         \<and> \<bar>2 * y - (720 - h)\<bar> \<le> \<bar>720 - h\<bar> / 2 ^ 51 + 1 / 2 ^ 1073
         \<and> \<bar>h - 720\<bar> \<le> 720 / 2 ^ 51)"
proof -
  let ?t = "exampleFrame\<lparr>videoWidth := 640\<rparr>"
  have hyp: "\<not> paused exampleFrame" "\<not> ended exampleFrame"
    "0 < videoWidth exampleFrame" "0 < videoHeight exampleFrame"
    "videoWidth exampleFrame < 2 ^ 32" "videoHeight exampleFrame < 2 ^ 32"
    by (simp_all add: exampleFrame_def)
  have target: "(1280::nat) < 2 ^ 32" "(720::nat) < 2 ^ 32"
    by simp_all
  have wider: "1280 * videoHeight exampleFrame < 720 * videoWidth exampleFrame"
    by (simp add: exampleFrame_def)
  have hyp': "\<not> paused ?t" "\<not> ended ?t" "0 < videoWidth ?t" "0 < videoHeight ?t"
    "videoWidth ?t < 2 ^ 32" "videoHeight ?t < 2 ^ 32"
    by (simp_all add: exampleFrame_def)
  have taller: "720 * videoWidth ?t < 1280 * videoHeight ?t"
    by (simp add: exampleFrame_def)
  obtain x y w h where 1:
    "drawFrame 1280 720 exampleFrame =
       [FillStyle ''#000000'', FillRect (Num 0) (Num 0) (num 1280) (num 720),
        DrawImage (Num x) (Num y) (Num w) (Num h), RequestAnimationFrame]"
    "\<bar>2 * x - (of_nat 1280 - w)\<bar> \<le> \<bar>of_nat 1280 - w\<bar> / 2 ^ 51 + 1 / 2 ^ 1073"
    "\<bar>2 * y - (of_nat 720 - h)\<bar> \<le> \<bar>of_nat 720 - h\<bar> / 2 ^ 51 + 1 / 2 ^ 1073"
    "\<bar>w - of_nat 1280\<bar> \<le> of_nat 1280 / 2 ^ 51"
    using letterbox [OF hyp target] wider by blast
  obtain x' y' w' h' where 2:
    "drawFrame 1280 720 ?t =
       [FillStyle ''#000000'', FillRect (Num 0) (Num 0) (num 1280) (num 720),
        DrawImage (Num x') (Num y') (Num w') (Num h'), RequestAnimationFrame]"
    "\<bar>2 * x' - (of_nat 1280 - w')\<bar> \<le> \<bar>of_nat 1280 - w'\<bar> / 2 ^ 51 + 1 / 2 ^ 1073"
    "\<bar>2 * y' - (of_nat 720 - h')\<bar> \<le> \<bar>of_nat 720 - h'\<bar> / 2 ^ 51 + 1 / 2 ^ 1073"
    "\<bar>h' - of_nat 720\<bar> \<le> of_nat 720 / 2 ^ 51"
    using letterbox [OF hyp' target] taller by blast
  have a: "\<exists>x y w h.
         drawFrame 1280 720 exampleFrame =
           [FillStyle ''#000000'', FillRect (Num 0) (Num 0) (num 1280) (num 720),
            DrawImage (Num x) (Num y) (Num w) (Num h), RequestAnimationFrame]
         \<and> \<bar>2 * x - (1280 - w)\<bar> \<le> \<bar>1280 - w\<bar> / 2 ^ 51 + 1 / 2 ^ 1073
         \<and> \<bar>2 * y - (720 - h)\<bar> \<le> \<bar>720 - h\<bar> / 2 ^ 51 + 1 / 2 ^ 1073
         \<and> \<bar>w - 1280\<bar> \<le> 1280 / 2 ^ 51"
    using 1 by (intro exI [of _ x] exI [of _ y] exI [of _ w] exI [of _ h])
      (simp only: of_nat_numeral simp_thms)
  have b: "\<exists>x y w h.
         drawFrame 1280 720 ?t =
           [FillStyle ''#000000'', FillRect (Num 0) (Num 0) (num 1280) (num 720),
            DrawImage (Num x) (Num y) (Num w) (Num h), RequestAnimationFrame]
         \<and> \<bar>2 * x - (1280 - w)\<bar> \<le> \<bar>1280 - w\<bar> / 2 ^ 51 + 1 / 2 ^ 1073
         \<and> \<bar>2 * y - (720 - h)\<bar> \<le> \<bar>720 - h\<bar> / 2 ^ 51 + 1 / 2 ^ 1073
         \<and> \<bar>h - 720\<bar> \<le> 720 / 2 ^ 51"
    using 2 by (intro exI [of _ x'] exI [of _ y'] exI [of _ w'] exI [of _ h'])
      (simp only: of_nat_numeral simp_thms)
  show ?thesis
    by (intro conjI) (rule hyp target wider taller a b)+
qed

text \<open>
  C4 as it was stated fails twice. A 2560 by 720 frame is wider than the 1280 by 720
  target, and the computed draw height is 360, not the target height 720: it is the draw
  width that is fitted to the target. And the fit is not exact: for a 1050 by 400 frame,
  also wider, the computed draw width is \<open>1280 + 2^-42\<close> and the offset is \<open>-2^-43\<close>, not
  1280 and 0.
\<close>

theorem letterbox_counterexample:
  "\<not> paused exampleFrame \<and> \<not> ended exampleFrame
   \<and> 1280 * videoHeight exampleFrame < 720 * videoWidth exampleFrame
   \<and> drawFrame 1280 720 exampleFrame =
       [FillStyle ''#000000'', FillRect (Num 0) (Num 0) (Num 1280) (Num 720),
        DrawImage (Num 0) (Num 180) (Num 1280) (Num 360), RequestAnimationFrame]
   \<and> Num 360 \<noteq> num 720
   \<and> (1280::nat) * 400 < 720 * 1050
   \<and> drawFrame 1280 720 (exampleFrame\<lparr>videoWidth := 1050, videoHeight := 400\<rparr>) =
       [FillStyle ''#000000'', FillRect (Num 0) (Num 0) (Num 1280) (Num 720),
        DrawImage (Num (- (1 / 8796093022208))) (Num (4088088947464289 / 35184372088832))
          (Num (5629499534213121 / 4398046511104)) (Num (8578285004515231 / 17592186044416)),
        RequestAnimationFrame]
   \<and> Num (5629499534213121 / 4398046511104) \<noteq> num 1280
   \<and> Num (- (1 / 8796093022208)) \<noteq> Num 0"
proof -
  have 1: "\<not> paused exampleFrame" "\<not> ended exampleFrame"
    "1280 * videoHeight exampleFrame < 720 * videoWidth exampleFrame"
    by (simp_all add: exampleFrame_def)
  have 2: "Num 360 \<noteq> num 720" "(1280::nat) * 400 < 720 * 1050"
    "Num (5629499534213121 / 4398046511104) \<noteq> num 1280"
    "Num (- (1 / 8796093022208)) \<noteq> Num 0"
    by (simp_all add: num_def)
  show ?thesis
    by (intro conjI) (rule 1 2 drawFrame_exampleFrame drawFrame_1050_400)+
qed

lemma fit_zero_width:
  "js_min (js_div (Num 1280) (Num 0)) (js_div (Num 720) (Num 720)) = Num 1"
  "js_mul (Num 0) (Num 1) = Num 0"
  "js_mul (Num 720) (Num 1) = Num 720"
  "js_div (js_sub (Num 1280) (Num 0)) (Num 2) = Num 640"
  "js_div (js_sub (Num 720) (Num 720)) (Num 2) = Num 0"
  by code_simp+

lemma fit_zero_both:
  "js_min (js_div (Num 1280) (Num 0)) (js_div (Num 720) (Num 0)) = PosInf"
  "js_mul (Num 0) PosInf = NaN"
  "js_div (js_sub (Num 1280) NaN) (Num 2) = NaN"
  "js_div (js_sub (Num 720) NaN) (Num 2) = NaN"
  by code_simp+

lemma drawFrame_zero_width:
  "drawFrame 1280 720 (exampleFrame\<lparr>videoWidth := 0\<rparr>) =
     [FillStyle ''#000000'', FillRect (Num 0) (Num 0) (Num 1280) (Num 720),
      DrawImage (Num 640) (Num 0) (Num 0) (Num 720), RequestAnimationFrame]"
  by (simp add: drawFrame_def exampleFrame_def num_def Let_def fit_zero_width
      del: js_div.simps js_mul.simps js_sub.simps js_min.simps)

lemma drawFrame_zero_both:
  "drawFrame 1280 720 (exampleFrame\<lparr>videoWidth := 0, videoHeight := 0\<rparr>) =
     [FillStyle ''#000000'', FillRect (Num 0) (Num 0) (Num 1280) (Num 720),
      DrawImage NaN NaN NaN NaN, RequestAnimationFrame]"
  by (simp add: drawFrame_def exampleFrame_def num_def Let_def fit_zero_both
      del: js_div.simps js_mul.simps js_sub.simps js_min.simps)

text \<open>
  C8 (amended). \<^verbatim>\<open>drawFrame\<close> skips a tick (no clearing, no draw, no next animation
  frame) when the video is paused or has ended, and it has no other guard. For a playing
  frame whose width or height is zero it raises no error of its own, clears the target to
  black, and still calls \<^verbatim>\<open>drawImage\<close> and asks for the next animation frame; the rectangle
  it hands to \<^verbatim>\<open>drawImage\<close> has no area: its width is 0, or its height is 0, or both are
  NaN.
\<close>

theorem zero_dimension_frame:
  "(paused video \<or> ended video \<longrightarrow> drawFrame width height video = [])
   \<and> (\<not> paused video \<and> \<not> ended video \<and> (videoWidth video = 0 \<or> videoHeight video = 0)
        \<and> 0 < width \<and> 0 < height \<longrightarrow>
       (\<exists>x y w h.
          drawFrame width height video =
            [FillStyle ''#000000'', FillRect (Num 0) (Num 0) (num width) (num height),
             DrawImage x y w h, RequestAnimationFrame]
          \<and> (w = Num 0 \<or> h = Num 0 \<or> w = NaN \<and> h = NaN)))"
proof (intro conjI impI)
  assume "paused video \<or> ended video"
  then show "drawFrame width height video = []"
    by (simp add: drawFrame_def)
next
  assume a: "\<not> paused video \<and> \<not> ended video
      \<and> (videoWidth video = 0 \<or> videoHeight video = 0) \<and> 0 < width \<and> 0 < height"
  consider (w0) "videoWidth video = 0" "0 < videoHeight video"
    | (h0) "0 < videoWidth video" "videoHeight video = 0"
    | (both) "videoWidth video = 0" "videoHeight video = 0"
    using a by auto
  then show "\<exists>x y w h.
          drawFrame width height video =
            [FillStyle ''#000000'', FillRect (Num 0) (Num 0) (num width) (num height),
             DrawImage x y w h, RequestAnimationFrame]
          \<and> (w = Num 0 \<or> h = Num 0 \<or> w = NaN \<and> h = NaN)"
  proof cases
    case w0
    with a show ?thesis by (simp add: drawFrame_def num_def Let_def round_double_zero)
  next
    case h0
    with a show ?thesis by (simp add: drawFrame_def num_def Let_def round_double_zero)
  next
    case both
    with a show ?thesis by (simp add: drawFrame_def num_def Let_def round_double_zero)
  qed
qed

text \<open>
  C8 as it was stated fails: for a playing frame of width 0 the draw is not skipped.
  \<^verbatim>\<open>drawImage\<close> is called with a rectangle of width 0, and with NaN in every position when
  both dimensions are 0.
\<close>

theorem zero_dimension_frame_counterexample:
  "\<not> paused (exampleFrame\<lparr>videoWidth := 0\<rparr>) \<and> \<not> ended (exampleFrame\<lparr>videoWidth := 0\<rparr>)
   \<and> videoWidth (exampleFrame\<lparr>videoWidth := 0\<rparr>) = 0
   \<and> drawFrame 1280 720 (exampleFrame\<lparr>videoWidth := 0\<rparr>) =
       [FillStyle ''#000000'', FillRect (Num 0) (Num 0) (Num 1280) (Num 720),
        DrawImage (Num 640) (Num 0) (Num 0) (Num 720), RequestAnimationFrame]
   \<and> drawFrame 1280 720 (exampleFrame\<lparr>videoWidth := 0, videoHeight := 0\<rparr>) =
       [FillStyle ''#000000'', FillRect (Num 0) (Num 0) (Num 1280) (Num 720),
        DrawImage NaN NaN NaN NaN, RequestAnimationFrame]"
  by (simp add: drawFrame_zero_width drawFrame_zero_both) (simp add: exampleFrame_def)

theorem zero_dimension_frame_witness:
  "(paused (exampleFrame\<lparr>paused := True\<rparr>) \<or> ended (exampleFrame\<lparr>paused := True\<rparr>))
   \<and> drawFrame 1280 720 (exampleFrame\<lparr>paused := True\<rparr>) = []
   \<and> \<not> paused (exampleFrame\<lparr>videoWidth := 0\<rparr>) \<and> \<not> ended (exampleFrame\<lparr>videoWidth := 0\<rparr>)
   \<and> (videoWidth (exampleFrame\<lparr>videoWidth := 0\<rparr>) = 0
        \<or> videoHeight (exampleFrame\<lparr>videoWidth := 0\<rparr>) = 0)
   \<and> (0::nat) < 1280 \<and> (0::nat) < 720
   \<and> (\<exists>x y w h.
          drawFrame 1280 720 (exampleFrame\<lparr>videoWidth := 0\<rparr>) =
            [FillStyle ''#000000'', FillRect (Num 0) (Num 0) (num 1280) (num 720),
             DrawImage x y w h, RequestAnimationFrame]
          \<and> (w = Num 0 \<or> h = Num 0 \<or> w = NaN \<and> h = NaN))"
proof -
  let ?p = "exampleFrame\<lparr>paused := True\<rparr>"
  let ?z = "exampleFrame\<lparr>videoWidth := 0\<rparr>"
  have p: "paused ?p \<or> ended ?p" by simp
  have z: "\<not> paused ?z \<and> \<not> ended ?z \<and> (videoWidth ?z = 0 \<or> videoHeight ?z = 0)
      \<and> (0::nat) < 1280 \<and> (0::nat) < 720"
    by (simp add: exampleFrame_def)
  have 1: "drawFrame 1280 720 ?p = []"
    using zero_dimension_frame [of ?p 1280 720] p by blast
  have 2: "\<exists>x y w h.
          drawFrame 1280 720 ?z =
            [FillStyle ''#000000'', FillRect (Num 0) (Num 0) (num 1280) (num 720),
             DrawImage x y w h, RequestAnimationFrame]
          \<and> (w = Num 0 \<or> h = Num 0 \<or> w = NaN \<and> h = NaN)"
    using zero_dimension_frame [of ?z 1280 720] z by blast
  have z': "\<not> paused ?z" "\<not> ended ?z" "videoWidth ?z = 0 \<or> videoHeight ?z = 0"
    by (simp_all add: exampleFrame_def)
  show ?thesis
    by (intro conjI) (rule p 1 2 z' | simp)+
qed


subsection \<open>The sequencer\<close>

lemma progressCalls_append:
  "progressCalls (xs @ ys) = progressCalls xs @ progressCalls ys"
  by (induction xs rule: progressCalls.induct) simp_all

lemma progressCalls_drawFrame: "progressCalls (drawFrame width height video) = []"
  by (simp add: drawFrame_def Let_def)

lemma progressCalls_dispatch:
  "progressCalls (calls (dispatch width height f e st)) = progressCalls (calls st)"
  by (cases e)
     (auto simp: onloadedmetadata_def onended_def onerror_def settle_def progressCalls_append
        progressCalls_drawFrame split: attach_outcome.splits)

lemma progressCalls_deliver:
  "progressCalls (calls (deliver width height f es st)) = progressCalls (calls st)"
  by (induction es arbitrary: st) (simp_all add: progressCalls_dispatch)

lemma progressCalls_playVideoToCanvas:
  "progressCalls (snd (playVideoToCanvas h f width height)) = []"
  by (simp add: playVideoToCanvas_def Let_def progressCalls_deliver)

lemma processClips_Fulfilled:
  assumes "\<forall>v\<in>set vs. fst (playVideoToCanvas h (file' v) CANVAS_WIDTH CANVAS_HEIGHT) = Fulfilled ()"
  shows "processClips h len i vs =
     (Fulfilled (),
      concat (map (\<lambda>(j, v).
          OnProgress \<lparr>currentClipIndex = j + 1, totalClips = len,
                      statusMessage = ProcessingClip (j + 1) (name v)\<rparr>
          # snd (playVideoToCanvas h (file' v) CANVAS_WIDTH CANVAS_HEIGHT))
        (enumerate i vs)))"
  using assms
proof (induction vs arbitrary: i)
  case Nil
  then show ?case by simp
next
  case (Cons v vs)
  obtain cs where pv: "playVideoToCanvas h (file' v) CANVAS_WIDTH CANVAS_HEIGHT = (Fulfilled (), cs)"
    using Cons.prems by (cases "playVideoToCanvas h (file' v) CANVAS_WIDTH CANVAS_HEIGHT") auto
  have "processClips h len (i + 1) vs =
     (Fulfilled (),
      concat (map (\<lambda>(j, v).
          OnProgress \<lparr>currentClipIndex = j + 1, totalClips = len,
                      statusMessage = ProcessingClip (j + 1) (name v)\<rparr>
          # snd (playVideoToCanvas h (file' v) CANVAS_WIDTH CANVAS_HEIGHT))
        (enumerate (i + 1) vs)))"
    using Cons.prems by (intro Cons.IH) simp
  then show ?case using pv by simp
qed

lemma progress_of_clips:
  "map (\<lambda>p. (currentClipIndex p, totalClips p))
     (progressCalls (concat (map (\<lambda>(j, v).
          OnProgress \<lparr>currentClipIndex = j + 1, totalClips = len,
                      statusMessage = ProcessingClip (j + 1) (name v)\<rparr>
          # snd (playVideoToCanvas h (file' v) CANVAS_WIDTH CANVAS_HEIGHT))
        (enumerate i vs))))
   = map (\<lambda>j. (j + 1, len)) [i..<i + length vs]"
proof (induction vs arbitrary: i)
  case Nil
  then show ?case by simp
next
  case (Cons v vs)
  have "[i..<i + length (v # vs)] = i # [Suc i..<Suc i + length vs]"
    by (simp add: upt_rec)
  then show ?case
    using Cons.IH [of "Suc i"]
    by (simp add: progressCalls_append progressCalls_playVideoToCanvas)
qed


lemma startedClips_append:
  "startedClips (xs @ ys) = startedClips xs @ startedClips ys"
  by (induction xs rule: startedClips.induct) simp_all

lemma startedClips_dispatch:
  "startedClips (calls (dispatch width height f e st)) = startedClips (calls st)"
  by (cases e)
     (auto simp: onloadedmetadata_def onended_def onerror_def settle_def startedClips_append
        drawFrame_def Let_def split: attach_outcome.splits)

lemma startedClips_deliver:
  "startedClips (calls (deliver width height f es st)) = startedClips (calls st)"
  by (induction es arbitrary: st) (simp_all add: startedClips_dispatch)

lemma startedClips_playVideoToCanvas:
  "startedClips (snd (playVideoToCanvas h f width height)) = [f]"
  by (simp add: playVideoToCanvas_def Let_def startedClips_deliver)

lemma startedClips_of_clips:
  "startedClips (concat (map (\<lambda>(j, v).
          OnProgress \<lparr>currentClipIndex = j + 1, totalClips = len,
                      statusMessage = ProcessingClip (j + 1) (name v)\<rparr>
          # snd (playVideoToCanvas h (file' v) CANVAS_WIDTH CANVAS_HEIGHT))
        (enumerate i vs)))
   = map file' vs"
  by (induction vs arbitrary: i)
     (simp_all add: startedClips_append startedClips_playVideoToCanvas)

lemma processClips_Rejected:
  assumes "\<forall>u\<in>set pre. fst (playVideoToCanvas h (file' u) CANVAS_WIDTH CANVAS_HEIGHT) = Fulfilled ()"
    and "fst (playVideoToCanvas h (file' v) CANVAS_WIDTH CANVAS_HEIGHT) = Rejected e"
  shows "processClips h len i (pre @ v # post) =
     (Rejected e,
      concat (map (\<lambda>(j, v).
          OnProgress \<lparr>currentClipIndex = j + 1, totalClips = len,
                      statusMessage = ProcessingClip (j + 1) (name v)\<rparr>
          # snd (playVideoToCanvas h (file' v) CANVAS_WIDTH CANVAS_HEIGHT))
        (enumerate i (pre @ [v]))))"
  using assms(1)
proof (induction pre arbitrary: i)
  case Nil
  obtain cs where "playVideoToCanvas h (file' v) CANVAS_WIDTH CANVAS_HEIGHT = (Rejected e, cs)"
    using assms(2) by (cases "playVideoToCanvas h (file' v) CANVAS_WIDTH CANVAS_HEIGHT") auto
  then show ?case by simp
next
  case (Cons u pre)
  obtain cs where pv: "playVideoToCanvas h (file' u) CANVAS_WIDTH CANVAS_HEIGHT = (Fulfilled (), cs)"
    using Cons.prems by (cases "playVideoToCanvas h (file' u) CANVAS_WIDTH CANVAS_HEIGHT") auto
  have "processClips h len (i + 1) (pre @ v # post) =
     (Rejected e,
      concat (map (\<lambda>(j, v).
          OnProgress \<lparr>currentClipIndex = j + 1, totalClips = len,
                      statusMessage = ProcessingClip (j + 1) (name v)\<rparr>
          # snd (playVideoToCanvas h (file' v) CANVAS_WIDTH CANVAS_HEIGHT))
        (enumerate (i + 1) (pre @ [v]))))"
    using Cons.prems by (intro Cons.IH) simp
  then show ?case using pv by simp
qed

lemma exampleHost_File3:
  "playVideoToCanvas exampleHost (File 3) 1280 720 =
     (Rejected (MediaErrorEvent 7),
      [CreateVideo, CreateObjectURL (File 3), CreateMediaElementSource, Connect, Play]
      @ drawFrame 1280 720 exampleFrame
      @ [Disconnect, Reject (MediaErrorEvent 7)])"
  by (simp add: playVideoToCanvas_def exampleHost_simps onloadedmetadata_def onerror_def
      settle_def)

lemma exampleHost_File2:
  "playVideoToCanvas exampleHost (File 2) 1280 720 =
     (Fulfilled (),
      [CreateVideo, CreateObjectURL (File 2), ConsoleWarn, Play]
      @ drawFrame 1280 720 exampleFrame
      @ [RevokeObjectURL (File 2), Resolve])"
  by (simp add: playVideoToCanvas_def exampleHost_simps onloadedmetadata_def onended_def
      settle_def)

lemma exampleClip_simps:
  "file' (exampleClip n) = File n" "name (exampleClip n) = ''clip.mp4''"
  by (simp_all add: exampleClip_def)

lemma example_outcomes:
  "fst (playVideoToCanvas exampleHost (file' (exampleClip 0)) CANVAS_WIDTH CANVAS_HEIGHT)
     = Fulfilled ()"
  "fst (playVideoToCanvas exampleHost (file' (exampleClip 3)) CANVAS_WIDTH CANVAS_HEIGHT)
     = Rejected (MediaErrorEvent 7)"
  "fst (playVideoToCanvas exampleHost (file' (exampleClip 2)) CANVAS_WIDTH CANVAS_HEIGHT)
     = Fulfilled ()"
  by (simp_all add: exampleClip_simps CANVAS_WIDTH_def CANVAS_HEIGHT_def exampleHost_File0
      exampleHost_File3 exampleHost_File2)

text \<open>
  C2. On a non-empty list of \<open>N\<close> clips, with a drawing context, when every driver is
  fulfilled: the run is fulfilled and \<^verbatim>\<open>onProgress\<close> is called exactly \<open>N + 1\<close> times. The
  trace is some calls without a progress report, then for each clip \<open>i\<close> (from 0) the report
  with \<^verbatim>\<open>currentClipIndex\<close> \<open>i + 1\<close> and \<^verbatim>\<open>totalClips\<close> \<open>N\<close> followed by the calls of that
  clip's driver, then the final report with \<^verbatim>\<open>currentClipIndex = totalClips = N\<close>, then calls
  without a progress report. So the indices of the reports are 1, ..., \<open>N\<close>, \<open>N\<close>.
\<close>

theorem progress_reports:
  assumes "videos \<noteq> []" and "canvasContext h"
    and "\<forall>v\<in>set videos.
           fst (playVideoToCanvas h (file' v) CANVAS_WIDTH CANVAS_HEIGHT) = Fulfilled ()"
  shows "(\<exists>b. fst (stitchVideos h videos) = Fulfilled b)
    \<and> map (\<lambda>p. (currentClipIndex p, totalClips p)) (progressCalls (snd (stitchVideos h videos)))
        = map (\<lambda>i. (i + 1, length videos)) [0..<length videos]
          @ [(length videos, length videos)]
    \<and> length (progressCalls (snd (stitchVideos h videos))) = length videos + 1
    \<and> (\<exists>prelude finish.
          snd (stitchVideos h videos) =
            prelude
            @ concat (map (\<lambda>(i, v).
                OnProgress \<lparr>currentClipIndex = i + 1, totalClips = length videos,
                            statusMessage = ProcessingClip (i + 1) (name v)\<rparr>
                # snd (playVideoToCanvas h (file' v) CANVAS_WIDTH CANVAS_HEIGHT))
              (enumerate 0 videos))
            @ OnProgress \<lparr>currentClipIndex = length videos, totalClips = length videos,
                          statusMessage = Finalizing\<rparr>
            # finish
          \<and> progressCalls prelude = [] \<and> progressCalls finish = [])"
proof -
  define clips where "clips =
     concat (map (\<lambda>(i, v).
          OnProgress \<lparr>currentClipIndex = i + 1, totalClips = length videos,
                      statusMessage = ProcessingClip (i + 1) (name v)\<rparr>
          # snd (playVideoToCanvas h (file' v) CANVAS_WIDTH CANVAS_HEIGHT))
        (enumerate 0 videos))"
  have loop: "processClips h (length videos) 0 videos = (Fulfilled (), clips)"
    unfolding clips_def using assms(3) by (rule processClips_Fulfilled)
  define b where
    "b = newBlob (foldl ondataavailable [] (recorded h)) (selectedMimeType (isTypeSupported h))"
  define prelude where "prelude =
     [CreateCanvas CANVAS_WIDTH CANVAS_HEIGHT, GetContext2D, FillStyle ''#000000'',
      FillRect (Num 0) (Num 0) (num CANVAS_WIDTH) (num CANVAS_HEIGHT),
      NewAudioContext, CreateMediaStreamDestination]
     @ (if audioState h = Suspended then [AudioResume] else [])
     @ [CaptureStream VIDEO_FRAME_RATE, NewMediaStream,
        ConsoleLog (''Using mime type: '' @ selectedMimeType (isTypeSupported h)),
        NewMediaRecorder (selectedMimeType (isTypeSupported h)), RecorderStart]"
  define finish where "finish =
     [RecorderStop, NewBlob b]
     @ (if (if audioState h = Suspended then Running else audioState h) \<noteq> Closed
        then [AudioClose] else [])"
  have run:
    "stitchVideos h videos =
       (Fulfilled b,
        prelude @ clips
        @ OnProgress \<lparr>currentClipIndex = length videos, totalClips = length videos,
                      statusMessage = Finalizing\<rparr> # finish)"
    using assms(1,2) loop by (simp add: stitchVideos_def Let_def b_def prelude_def finish_def)
  have quiet: "progressCalls prelude = []" "progressCalls finish = []"
    by (simp_all add: prelude_def finish_def)
  have pairs: "map (\<lambda>p. (currentClipIndex p, totalClips p)) (progressCalls clips)
      = map (\<lambda>i. (i + 1, length videos)) [0..<length videos]"
    unfolding clips_def using progress_of_clips [of "length videos" h 0 videos] by simp
  have all: "map (\<lambda>p. (currentClipIndex p, totalClips p))
        (progressCalls (snd (stitchVideos h videos)))
      = map (\<lambda>i. (i + 1, length videos)) [0..<length videos]
        @ [(length videos, length videos)]"
    using run quiet pairs by (simp add: progressCalls_append)
  have "length (map (\<lambda>p. (currentClipIndex p, totalClips p))
        (progressCalls (snd (stitchVideos h videos)))) = length videos + 1"
    unfolding all by simp
  then have count: "length (progressCalls (snd (stitchVideos h videos))) = length videos + 1"
    by simp
  have ex: "\<exists>b. fst (stitchVideos h videos) = Fulfilled b"
    unfolding run by simp
  have shape: "\<exists>prelude finish.
          snd (stitchVideos h videos) =
            prelude @ clips
            @ OnProgress \<lparr>currentClipIndex = length videos, totalClips = length videos,
                          statusMessage = Finalizing\<rparr>
            # finish
          \<and> progressCalls prelude = [] \<and> progressCalls finish = []"
    unfolding run snd_conv using quiet by blast
  from ex all count shape show ?thesis
    unfolding clips_def by (intro conjI)
qed

theorem progress_reports_witness:
  "[exampleClip 0, exampleClip 2] \<noteq> [] \<and> canvasContext exampleHost
   \<and> fst (playVideoToCanvas exampleHost (file' (exampleClip 0)) CANVAS_WIDTH CANVAS_HEIGHT)
       = Fulfilled ()
   \<and> fst (playVideoToCanvas exampleHost (file' (exampleClip 2)) CANVAS_WIDTH CANVAS_HEIGHT)
       = Fulfilled ()
   \<and> map (\<lambda>p. (currentClipIndex p, totalClips p))
        (progressCalls (snd (stitchVideos exampleHost [exampleClip 0, exampleClip 2])))
       = [(1, 2), (2, 2), (2, 2)]
   \<and> length (progressCalls (snd (stitchVideos exampleHost [exampleClip 0, exampleClip 2]))) = 3"
proof -
  let ?vs = "[exampleClip 0, exampleClip 2]"
  have ne: "?vs \<noteq> []" by simp
  have ctx: "canvasContext exampleHost" by (rule exampleHost_simps)
  have ok: "\<forall>v\<in>set ?vs.
      fst (playVideoToCanvas exampleHost (file' v) CANVAS_WIDTH CANVAS_HEIGHT) = Fulfilled ()"
    by (simp add: example_outcomes)
  have up: "[0..<length ?vs] = [0, 1]" by (simp add: upt_rec)
  from progress_reports [OF ne ctx ok]
  have "map (\<lambda>p. (currentClipIndex p, totalClips p)) (progressCalls (snd (stitchVideos exampleHost ?vs)))
        = map (\<lambda>i. (i + 1, length ?vs)) [0..<length ?vs] @ [(length ?vs, length ?vs)]"
    and "length (progressCalls (snd (stitchVideos exampleHost ?vs))) = length ?vs + 1"
    by blast+
  then have "map (\<lambda>p. (currentClipIndex p, totalClips p)) (progressCalls (snd (stitchVideos exampleHost ?vs)))
        = [(1, 2), (2, 2), (2, 2)]"
    and "length (progressCalls (snd (stitchVideos exampleHost ?vs))) = 3"
    unfolding up by simp_all
  with ne ctx example_outcomes(1,3) show ?thesis by blast
qed

text \<open>
  C1 (amended). With a drawing context, when the drivers of the clips before index \<open>i\<close> are
  fulfilled and the driver of clip \<open>i\<close> rejects with \<open>e\<close>, the run rejects with \<open>e\<close> itself (the
  error is not wrapped and carries no clip index), so no output is returned. The remaining
  clips are not touched: playback was started for the clips 0 to \<open>i\<close> only, and the progress
  reports are those of the clips 0 to \<open>i\<close>, without a final one.
\<close>

theorem clip_failure_aborts:
  assumes "canvasContext h"
    and "\<forall>u\<in>set pre.
           fst (playVideoToCanvas h (file' u) CANVAS_WIDTH CANVAS_HEIGHT) = Fulfilled ()"
    and "fst (playVideoToCanvas h (file' v) CANVAS_WIDTH CANVAS_HEIGHT) = Rejected e"
  shows "fst (stitchVideos h (pre @ v # post)) = Rejected e
    \<and> startedClips (snd (stitchVideos h (pre @ v # post))) = map file' (pre @ [v])
    \<and> map (\<lambda>p. (currentClipIndex p, totalClips p))
        (progressCalls (snd (stitchVideos h (pre @ v # post))))
        = map (\<lambda>i. (i + 1, length (pre @ v # post))) [0..<length pre + 1]"
proof -
  let ?videos = "pre @ v # post"
  define clips where "clips =
     concat (map (\<lambda>(i, v).
          OnProgress \<lparr>currentClipIndex = i + 1, totalClips = length ?videos,
                      statusMessage = ProcessingClip (i + 1) (name v)\<rparr>
          # snd (playVideoToCanvas h (file' v) CANVAS_WIDTH CANVAS_HEIGHT))
        (enumerate 0 (pre @ [v])))"
  define prelude where "prelude =
     [CreateCanvas CANVAS_WIDTH CANVAS_HEIGHT, GetContext2D, FillStyle ''#000000'',
      FillRect (Num 0) (Num 0) (num CANVAS_WIDTH) (num CANVAS_HEIGHT),
      NewAudioContext, CreateMediaStreamDestination]
     @ (if audioState h = Suspended then [AudioResume] else [])
     @ [CaptureStream VIDEO_FRAME_RATE, NewMediaStream,
        ConsoleLog (''Using mime type: '' @ selectedMimeType (isTypeSupported h)),
        NewMediaRecorder (selectedMimeType (isTypeSupported h)), RecorderStart]"
  have loop: "processClips h (length ?videos) 0 ?videos = (Rejected e, clips)"
    unfolding clips_def using assms(2,3) by (rule processClips_Rejected)
  have run: "stitchVideos h ?videos = (Rejected e, prelude @ clips)"
    using assms(1) loop by (simp add: stitchVideos_def Let_def prelude_def)
  have quiet: "progressCalls prelude = []" "startedClips prelude = []"
    by (simp_all add: prelude_def)
  have started: "startedClips clips = map file' (pre @ [v])"
    unfolding clips_def by (rule startedClips_of_clips)
  have pairs: "map (\<lambda>p. (currentClipIndex p, totalClips p)) (progressCalls clips)
      = map (\<lambda>i. (i + 1, length ?videos)) [0..<length pre + 1]"
    unfolding clips_def using progress_of_clips [of "length ?videos" h 0 "pre @ [v]"] by simp
  show ?thesis
    unfolding run fst_conv snd_conv
    using quiet started pairs by (simp add: progressCalls_append startedClips_append)
qed

lemma exampleHost_clips_0_3:
  "processClips exampleHost len i [exampleClip 0, exampleClip 3, exampleClip 2] =
     (Rejected (MediaErrorEvent 7),
      [OnProgress \<lparr>currentClipIndex = i + 1, totalClips = len,
                   statusMessage = ProcessingClip (i + 1) ''clip.mp4''\<rparr>]
      @ snd (playVideoToCanvas exampleHost (File 0) 1280 720)
      @ [OnProgress \<lparr>currentClipIndex = i + 2, totalClips = len,
                     statusMessage = ProcessingClip (i + 2) ''clip.mp4''\<rparr>]
      @ snd (playVideoToCanvas exampleHost (File 3) 1280 720))"
  by (simp add: exampleClip_simps CANVAS_WIDTH_def CANVAS_HEIGHT_def exampleHost_File0
      exampleHost_File3)

lemma exampleHost_run_0_3:
  "stitchVideos exampleHost [exampleClip 0, exampleClip 3, exampleClip 2] =
     (Rejected (MediaErrorEvent 7),
      [CreateCanvas 1280 720, GetContext2D, FillStyle ''#000000'',
       FillRect (Num 0) (Num 0) (Num 1280) (Num 720),
       NewAudioContext, CreateMediaStreamDestination, AudioResume,
       CaptureStream 30, NewMediaStream,
       ConsoleLog ''Using mime type: video/webm;codecs=vp9,opus'',
       NewMediaRecorder ''video/webm;codecs=vp9,opus'', RecorderStart,
       OnProgress \<lparr>currentClipIndex = 1, totalClips = 3,
                   statusMessage = ProcessingClip 1 ''clip.mp4''\<rparr>,
       CreateVideo, CreateObjectURL (File 0), CreateMediaElementSource, Connect, Play,
       FillStyle ''#000000'', FillRect (Num 0) (Num 0) (Num 1280) (Num 720),
       DrawImage (Num 0) (Num 180) (Num 1280) (Num 360), RequestAnimationFrame,
       FillStyle ''#000000'', FillRect (Num 0) (Num 0) (Num 1280) (Num 720),
       DrawImage (Num 0) (Num 180) (Num 1280) (Num 360), RequestAnimationFrame,
       Disconnect, RevokeObjectURL (File 0), Resolve,
       OnProgress \<lparr>currentClipIndex = 2, totalClips = 3,
                   statusMessage = ProcessingClip 2 ''clip.mp4''\<rparr>,
       CreateVideo, CreateObjectURL (File 3), CreateMediaElementSource, Connect, Play,
       FillStyle ''#000000'', FillRect (Num 0) (Num 0) (Num 1280) (Num 720),
       DrawImage (Num 0) (Num 180) (Num 1280) (Num 360), RequestAnimationFrame,
       Disconnect, Reject (MediaErrorEvent 7)])"
  by (simp add: stitchVideos_def exampleHost_simps(1,2) exampleHost_clips_0_3
      exampleHost_selected exampleHost_File0 exampleHost_File3 drawFrame_exampleFrame
      CANVAS_WIDTH_def CANVAS_HEIGHT_def VIDEO_FRAME_RATE_def num_def Let_def
      del: processClips.simps)

theorem clip_failure_aborts_witness:
  "canvasContext exampleHost
   \<and> fst (playVideoToCanvas exampleHost (file' (exampleClip 0)) CANVAS_WIDTH CANVAS_HEIGHT)
       = Fulfilled ()
   \<and> fst (playVideoToCanvas exampleHost (file' (exampleClip 3)) CANVAS_WIDTH CANVAS_HEIGHT)
       = Rejected (MediaErrorEvent 7)
   \<and> fst (stitchVideos exampleHost [exampleClip 0, exampleClip 3, exampleClip 2])
       = Rejected (MediaErrorEvent 7)
   \<and> startedClips (snd (stitchVideos exampleHost [exampleClip 0, exampleClip 3, exampleClip 2]))
       = [File 0, File 3]
   \<and> map (\<lambda>p. (currentClipIndex p, totalClips p))
        (progressCalls (snd (stitchVideos exampleHost [exampleClip 0, exampleClip 3, exampleClip 2])))
       = [(1, 3), (2, 3)]"
proof -
  have ctx: "canvasContext exampleHost" by (rule exampleHost_simps)
  have ok: "\<forall>u\<in>set [exampleClip 0].
      fst (playVideoToCanvas exampleHost (file' u) CANVAS_WIDTH CANVAS_HEIGHT) = Fulfilled ()"
    by (simp add: example_outcomes)
  have up: "[0..<length [exampleClip 0] + 1] = [0, 1]" by (simp add: upt_rec)
  from clip_failure_aborts [OF ctx ok example_outcomes(2), of "[exampleClip 2]"]
  have "fst (stitchVideos exampleHost [exampleClip 0, exampleClip 3, exampleClip 2])
       = Rejected (MediaErrorEvent 7)"
    and "startedClips (snd (stitchVideos exampleHost [exampleClip 0, exampleClip 3, exampleClip 2]))
       = [File 0, File 3]"
    and "map (\<lambda>p. (currentClipIndex p, totalClips p))
        (progressCalls (snd (stitchVideos exampleHost [exampleClip 0, exampleClip 3, exampleClip 2])))
       = [(1, 3), (2, 3)]"
    unfolding up by (simp_all add: exampleClip_simps)
  with ctx example_outcomes(1,2) show ?thesis by blast
qed

text \<open>
  C1 as it was stated fails. In the example run the second of three clips fails while
  playing: the run rejects with the event of \<^verbatim>\<open>video.onerror\<close> itself, and although the
  recorder was started and the audio context created, the trace holds no
  \<^verbatim>\<open>mediaRecorder.stop()\<close> and no \<^verbatim>\<open>audioCtx.close()\<close>.
\<close>

theorem clip_failure_counterexample:
  "fst (playVideoToCanvas exampleHost (file' (exampleClip 3)) CANVAS_WIDTH CANVAS_HEIGHT)
     = Rejected (MediaErrorEvent 7)
   \<and> fst (stitchVideos exampleHost [exampleClip 0, exampleClip 3, exampleClip 2])
       = Rejected (MediaErrorEvent 7)
   \<and> RecorderStart \<in> set (snd (stitchVideos exampleHost [exampleClip 0, exampleClip 3, exampleClip 2]))
   \<and> RecorderStop \<notin> set (snd (stitchVideos exampleHost [exampleClip 0, exampleClip 3, exampleClip 2]))
   \<and> NewAudioContext \<in> set (snd (stitchVideos exampleHost [exampleClip 0, exampleClip 3, exampleClip 2]))
   \<and> AudioClose \<notin> set (snd (stitchVideos exampleHost [exampleClip 0, exampleClip 3, exampleClip 2]))"
  by (simp add: example_outcomes exampleHost_run_0_3)

subsection \<open>The per-clip driver\<close>

lemma deliver_settled:
  "settled st \<noteq> Pending \<Longrightarrow> deliver width height f es st = st"
  by (cases es) simp_all

lemma dispatch_no_revoke:
  assumes "\<forall>g. RevokeObjectURL g \<notin> set (calls st)"
    and "settled st = Pending"
    and "settled (dispatch width height f e st) \<noteq> Fulfilled ()"
  shows "\<forall>g. RevokeObjectURL g \<notin> set (calls (dispatch width height f e st))"
  using assms
  by (cases e)
     (auto simp: onloadedmetadata_def onended_def onerror_def settle_def drawFrame_def Let_def
        split: attach_outcome.splits if_splits)

lemma deliver_no_revoke:
  assumes "\<forall>g. RevokeObjectURL g \<notin> set (calls st)"
    and "settled st = Pending"
    and "settled (deliver width height f es st) \<noteq> Fulfilled ()"
  shows "\<forall>g. RevokeObjectURL g \<notin> set (calls (deliver width height f es st))"
  using assms
proof (induction es arbitrary: st)
  case Nil
  then show ?case by simp
next
  case (Cons e es)
  let ?st = "dispatch width height f e st"
  have step: "deliver width height f (e # es) st = deliver width height f es ?st"
    using Cons.prems(2) by simp
  show ?case
  proof (cases "settled ?st = Pending")
    case True
    have "settled ?st \<noteq> Fulfilled ()" using True by simp
    then have "\<forall>g. RevokeObjectURL g \<notin> set (calls ?st)"
      using Cons.prems(1,2) by (intro dispatch_no_revoke) auto
    then have "\<forall>g. RevokeObjectURL g \<notin> set (calls (deliver width height f es ?st))"
      using True Cons.prems(3) step by (intro Cons.IH) auto
    then show ?thesis using step by simp
  next
    case False
    then have same: "deliver width height f es ?st = ?st" by (rule deliver_settled)
    then have "settled ?st \<noteq> Fulfilled ()" using Cons.prems(3) step by simp
    then have "\<forall>g. RevokeObjectURL g \<notin> set (calls ?st)"
      using Cons.prems(1,2) by (intro dispatch_no_revoke) auto
    then show ?thesis using step same by simp
  qed
qed

lemma rejected_driver_keeps_object_url:
  assumes "fst (playVideoToCanvas h f width height) = Rejected e"
  shows "RevokeObjectURL f \<notin> set (snd (playVideoToCanvas h f width height))"
proof -
  let ?st0 = "\<lparr>source = None, settled = Pending, calls = [CreateVideo, CreateObjectURL f]\<rparr>"
  have "settled (deliver width height f (media h f) ?st0) \<noteq> Fulfilled ()"
    using assms by (simp add: playVideoToCanvas_def Let_def)
  then have "\<forall>g. RevokeObjectURL g \<notin> set (calls (deliver width height f (media h f) ?st0))"
    by (intro deliver_no_revoke) simp_all
  then show ?thesis by (simp add: playVideoToCanvas_def Let_def)
qed

text \<open>
  C3 does not hold of the code on the error path. In the example, file 3 loads, attaches
  its audio, starts playing and then fires \<^verbatim>\<open>error\<close>: \<^verbatim>\<open>onerror\<close> disconnects the audio
  source and rejects, and the object URL created for the clip is never revoked
  (\<^verbatim>\<open>onended\<close> revokes it). The lemma before shows the same for every rejected driver.
\<close>

theorem onerror_keeps_object_url:
  "playVideoToCanvas exampleHost (File 3) 1280 720 =
     (Rejected (MediaErrorEvent 7),
      [CreateVideo, CreateObjectURL (File 3), CreateMediaElementSource, Connect, Play,
       FillStyle ''#000000'', FillRect (Num 0) (Num 0) (Num 1280) (Num 720),
       DrawImage (Num 0) (Num 180) (Num 1280) (Num 360), RequestAnimationFrame,
       Disconnect, Reject (MediaErrorEvent 7)])
   \<and> RevokeObjectURL (File 3) \<notin> set (snd (playVideoToCanvas exampleHost (File 3) 1280 720))"
  by (simp add: exampleHost_File3 drawFrame_exampleFrame)

lemma dispatch_audible:
  assumes "settled st' = settled st"
    and "filter (\<lambda>c. \<not> isAudioCall c) (calls st') = filter (\<lambda>c. \<not> isAudioCall c) (calls st)"
  shows "settled (dispatch width height f (audible e) st') = settled (dispatch width height f e st)
    \<and> filter (\<lambda>c. \<not> isAudioCall c) (calls (dispatch width height f (audible e) st'))
        = filter (\<lambda>c. \<not> isAudioCall c) (calls (dispatch width height f e st))"
  using assms
  by (cases e)
     (auto simp: onloadedmetadata_def onended_def onerror_def settle_def
        split: attach_outcome.splits)

lemma deliver_audible:
  assumes "settled st' = settled st"
    and "filter (\<lambda>c. \<not> isAudioCall c) (calls st') = filter (\<lambda>c. \<not> isAudioCall c) (calls st)"
  shows "settled (deliver width height f (map audible es) st') = settled (deliver width height f es st)
    \<and> filter (\<lambda>c. \<not> isAudioCall c) (calls (deliver width height f (map audible es) st'))
        = filter (\<lambda>c. \<not> isAudioCall c) (calls (deliver width height f es st))"
  using assms
proof (induction es arbitrary: st st')
  case Nil
  then show ?case by simp
next
  case (Cons e es)
  show ?case
  proof (cases "settled st = Pending")
    case True
    have "settled (deliver width height f (map audible es) (dispatch width height f (audible e) st'))
          = settled (deliver width height f es (dispatch width height f e st))
      \<and> filter (\<lambda>c. \<not> isAudioCall c)
          (calls (deliver width height f (map audible es) (dispatch width height f (audible e) st')))
        = filter (\<lambda>c. \<not> isAudioCall c)
          (calls (deliver width height f es (dispatch width height f e st)))"
      using dispatch_audible [OF Cons.prems, of width height f e]
      by (intro Cons.IH) simp_all
    then show ?thesis using True Cons.prems(1) by simp
  next
    case False
    then show ?thesis using Cons.prems by simp
  qed
qed

lemma playVideoToCanvas_audible:
  "fst (playVideoToCanvas (h\<lparr>media := \<lambda>f. map audible (media h f)\<rparr>) f width height)
     = fst (playVideoToCanvas h f width height)
   \<and> filter (\<lambda>c. \<not> isAudioCall c)
       (snd (playVideoToCanvas (h\<lparr>media := \<lambda>f. map audible (media h f)\<rparr>) f width height))
     = filter (\<lambda>c. \<not> isAudioCall c) (snd (playVideoToCanvas h f width height))"
  using deliver_audible
    [of "\<lparr>source = None, settled = Pending, calls = [CreateVideo, CreateObjectURL f]\<rparr>"
        "\<lparr>source = None, settled = Pending, calls = [CreateVideo, CreateObjectURL f]\<rparr>"
        width height f "media h f"]
  by (simp add: playVideoToCanvas_def Let_def)

lemma processClips_audible:
  "fst (processClips (h\<lparr>media := \<lambda>f. map audible (media h f)\<rparr>) len i vs)
     = fst (processClips h len i vs)
   \<and> filter (\<lambda>c. \<not> isAudioCall c)
       (snd (processClips (h\<lparr>media := \<lambda>f. map audible (media h f)\<rparr>) len i vs))
     = filter (\<lambda>c. \<not> isAudioCall c) (snd (processClips h len i vs))"
proof (induction vs arbitrary: i)
  case Nil
  then show ?case by simp
next
  case (Cons v vs)
  let ?h = "h\<lparr>media := \<lambda>f. map audible (media h f)\<rparr>"
  obtain r cs where pv: "playVideoToCanvas h (file' v) CANVAS_WIDTH CANVAS_HEIGHT = (r, cs)"
    by (cases "playVideoToCanvas h (file' v) CANVAS_WIDTH CANVAS_HEIGHT")
  obtain r' cs' where pv': "playVideoToCanvas ?h (file' v) CANVAS_WIDTH CANVAS_HEIGHT = (r', cs')"
    by (cases "playVideoToCanvas ?h (file' v) CANVAS_WIDTH CANVAS_HEIGHT")
  have eq: "r' = r" "filter (\<lambda>c. \<not> isAudioCall c) cs' = filter (\<lambda>c. \<not> isAudioCall c) cs"
    using playVideoToCanvas_audible [of h "file' v" CANVAS_WIDTH CANVAS_HEIGHT] pv pv'
    by simp_all
  obtain q ds where rest: "processClips h len (i + 1) vs = (q, ds)"
    by (cases "processClips h len (i + 1) vs")
  obtain q' ds' where rest': "processClips ?h len (i + 1) vs = (q', ds')"
    by (cases "processClips ?h len (i + 1) vs")
  have eq': "q' = q" "filter (\<lambda>c. \<not> isAudioCall c) ds' = filter (\<lambda>c. \<not> isAudioCall c) ds"
    using Cons.IH [of "i + 1"] rest rest' by simp_all
  show ?case
    using pv pv' eq rest rest' eq' by (cases r) simp_all
qed


lemma stitchVideos_audible:
  "fst (stitchVideos (h\<lparr>media := \<lambda>f. map audible (media h f)\<rparr>) videos)
     = fst (stitchVideos h videos)
   \<and> filter (\<lambda>c. \<not> isAudioCall c)
       (snd (stitchVideos (h\<lparr>media := \<lambda>f. map audible (media h f)\<rparr>) videos))
     = filter (\<lambda>c. \<not> isAudioCall c) (snd (stitchVideos h videos))"
proof -
  let ?h = "h\<lparr>media := \<lambda>f. map audible (media h f)\<rparr>"
  obtain r cs where loop: "processClips h (length videos) 0 videos = (r, cs)"
    by (cases "processClips h (length videos) 0 videos")
  obtain r' cs' where loop': "processClips ?h (length videos) 0 videos = (r', cs')"
    by (cases "processClips ?h (length videos) 0 videos")
  have eq: "r' = r" "filter (\<lambda>c. \<not> isAudioCall c) cs' = filter (\<lambda>c. \<not> isAudioCall c) cs"
    using processClips_audible [of h "length videos" 0 videos] loop loop' by simp_all
  show ?thesis
    using loop loop' eq by (cases r) (simp_all add: stitchVideos_def Let_def)
qed

lemma exampleHost_run2:
  "fst (stitchVideos exampleHost [exampleClip 2]) =
     Fulfilled \<lparr>bytes = [1, 2, 3], mime = ''video/webm;codecs=vp9,opus''\<rparr>"
proof -
  have "processClips exampleHost len i [exampleClip 2] =
     (Fulfilled (),
      OnProgress \<lparr>currentClipIndex = i + 1, totalClips = len,
                  statusMessage = ProcessingClip (i + 1) ''clip.mp4''\<rparr>
      # snd (playVideoToCanvas exampleHost (File 2) 1280 720))" for len i
    by (simp add: exampleClip_simps CANVAS_WIDTH_def CANVAS_HEIGHT_def exampleHost_File2)
  then show ?thesis
    by (simp add: stitchVideos_def exampleHost_simps(1,2) exampleHost_chunks
        exampleHost_selected newBlob_def Let_def del: processClips.simps)
qed

lemma deliver_frames:
  "settled st = Pending \<Longrightarrow>
   deliver width height f (map AnimationFrame frs @ es) st =
   deliver width height f es
     (st\<lparr>calls := calls st @ concat (map (drawFrame width height) frs)\<rparr>)"
proof (induction frs arbitrary: st)
  case Nil
  then show ?case by simp
next
  case (Cons fr frs)
  let ?st = "st\<lparr>calls := calls st @ drawFrame width height fr\<rparr>"
  have "settled ?st = Pending" using Cons.prems by simp
  from Cons.IH [OF this] Cons.prems show ?case by simp
qed

lemma silent_clip_plays:
  assumes "a \<noteq> AttachOk"
    and "media h f = LoadedMetadata a # PlayFulfilled fr # map AnimationFrame frs @ [Ended]"
  shows "playVideoToCanvas h f width height =
     (Fulfilled (),
      [CreateVideo, CreateObjectURL f]
      @ (if a = ConnectThrows then [CreateMediaElementSource] else [])
      @ [ConsoleWarn, Play]
      @ drawFrame width height fr
      @ concat (map (drawFrame width height) frs)
      @ (if a = ConnectThrows then [Disconnect] else [])
      @ [RevokeObjectURL f, Resolve])"
proof (cases a)
  case AttachOk
  with assms(1) show ?thesis by simp
next
  case CreateThrows
  then show ?thesis
    by (simp add: playVideoToCanvas_def assms(2) onloadedmetadata_def deliver_frames
        onended_def settle_def)
next
  case ConnectThrows
  then show ?thesis
    by (simp add: playVideoToCanvas_def assms(2) onloadedmetadata_def deliver_frames
        onended_def settle_def)
qed

lemma drawFrame_draws:
  "\<not> paused fr \<Longrightarrow> \<not> ended fr \<Longrightarrow>
   \<exists>x y w d. DrawImage x y w d \<in> set (drawFrame width height fr)"
  by (simp add: drawFrame_def Let_def)

lemma clip_calls_in_run:
  assumes "canvasContext h"
    and "\<forall>u\<in>set (pre @ v # post).
           fst (playVideoToCanvas h (file' u) CANVAS_WIDTH CANVAS_HEIGHT) = Fulfilled ()"
  shows "(\<exists>b. fst (stitchVideos h (pre @ v # post)) = Fulfilled b)
    \<and> (\<exists>before after.
          snd (stitchVideos h (pre @ v # post)) =
            before @ snd (playVideoToCanvas h (file' v) CANVAS_WIDTH CANVAS_HEIGHT) @ after)"
proof -
  let ?videos = "pre @ v # post"
  let ?g = "\<lambda>(i, u).
          OnProgress \<lparr>currentClipIndex = i + 1, totalClips = length ?videos,
                      statusMessage = ProcessingClip (i + 1) (name u)\<rparr>
          # snd (playVideoToCanvas h (file' u) CANVAS_WIDTH CANVAS_HEIGHT)"
  have loop: "processClips h (length ?videos) 0 ?videos =
      (Fulfilled (), concat (map ?g (enumerate 0 ?videos)))"
    using assms(2) by (rule processClips_Fulfilled)
  have split: "concat (map ?g (enumerate 0 ?videos)) =
      (concat (map ?g (enumerate 0 pre))
       @ [OnProgress \<lparr>currentClipIndex = length pre + 1, totalClips = length ?videos,
                      statusMessage = ProcessingClip (length pre + 1) (name v)\<rparr>])
      @ snd (playVideoToCanvas h (file' v) CANVAS_WIDTH CANVAS_HEIGHT)
      @ concat (map ?g (enumerate (Suc (length pre)) post))"
    by (simp add: enumerate_append_eq)
  define b where
    "b = newBlob (foldl ondataavailable [] (recorded h)) (selectedMimeType (isTypeSupported h))"
  define p where "p =
     [CreateCanvas CANVAS_WIDTH CANVAS_HEIGHT, GetContext2D, FillStyle ''#000000'',
      FillRect (Num 0) (Num 0) (num CANVAS_WIDTH) (num CANVAS_HEIGHT),
      NewAudioContext, CreateMediaStreamDestination]
     @ (if audioState h = Suspended then [AudioResume] else [])
     @ [CaptureStream VIDEO_FRAME_RATE, NewMediaStream,
        ConsoleLog (''Using mime type: '' @ selectedMimeType (isTypeSupported h)),
        NewMediaRecorder (selectedMimeType (isTypeSupported h)), RecorderStart]"
  define q where "q =
     [OnProgress \<lparr>currentClipIndex = length ?videos, totalClips = length ?videos,
                  statusMessage = Finalizing\<rparr>,
      RecorderStop, NewBlob b]
     @ (if (if audioState h = Suspended then Running else audioState h) \<noteq> Closed
        then [AudioClose] else [])"
  define cs where "cs = p @ concat (map ?g (enumerate 0 ?videos)) @ q"
  have run: "stitchVideos h ?videos = (Fulfilled b, cs)"
    using assms(1) loop
    by (simp add: stitchVideos_def Let_def b_def p_def q_def cs_def del: processClips.simps)
  have "cs = p @ concat (map ?g (enumerate 0 ?videos)) @ q"
    by (rule cs_def)
  then have "cs =
      (p @ concat (map ?g (enumerate 0 pre))
       @ [OnProgress \<lparr>currentClipIndex = length pre + 1, totalClips = length ?videos,
                      statusMessage = ProcessingClip (length pre + 1) (name v)\<rparr>])
      @ snd (playVideoToCanvas h (file' v) CANVAS_WIDTH CANVAS_HEIGHT)
      @ (concat (map ?g (enumerate (Suc (length pre)) post)) @ q)"
    by (simp only: split append_assoc)
  then have "\<exists>before after.
      cs = before @ snd (playVideoToCanvas h (file' v) CANVAS_WIDTH CANVAS_HEIGHT) @ after"
    by blast
  with run show ?thesis by simp
qed

text \<open>
  C7. A failure to attach the audio (\<^verbatim>\<open>createMediaElementSource\<close> or \<^verbatim>\<open>connect\<close> throws) is
  caught in \<^verbatim>\<open>onloadedmetadata\<close>: the promise of the driver is left as it was, nothing is
  connected, a warning is logged and \<^verbatim>\<open>video.play()\<close> is called. A run has the outcome, and
  every call that is not an audio call, of the run in which every attach succeeds. And
  for a clip that loads with such a failure, starts playing, is drawn at each animation
  frame and ends: the driver is fulfilled, and its calls are the warning, \<^verbatim>\<open>play()\<close>, the
  calls of \<^verbatim>\<open>drawFrame\<close> for every frame (a \<^verbatim>\<open>drawImage\<close> for the first), and the
  release of the object URL, with no \<^verbatim>\<open>connect\<close>; when the other clips of the list are
  fulfilled too, the run is fulfilled and these calls are part of its trace.
\<close>

theorem audio_attach_failure_nonfatal:
  "(a \<noteq> AttachOk \<longrightarrow>
      settled (onloadedmetadata a st) = settled st
      \<and> (\<exists>cs. calls (onloadedmetadata a st) = calls st @ cs @ [ConsoleWarn, Play]
               \<and> Connect \<notin> set cs))
   \<and> fst (stitchVideos (h\<lparr>media := \<lambda>f. map audible (media h f)\<rparr>) videos)
       = fst (stitchVideos h videos)
   \<and> filter (\<lambda>c. \<not> isAudioCall c)
       (snd (stitchVideos (h\<lparr>media := \<lambda>f. map audible (media h f)\<rparr>) videos))
     = filter (\<lambda>c. \<not> isAudioCall c) (snd (stitchVideos h videos))
   \<and> (a \<noteq> AttachOk
       \<and> media h (file' v)
           = LoadedMetadata a # PlayFulfilled fr # map AnimationFrame frs @ [Ended]
       \<and> \<not> paused fr \<and> \<not> ended fr \<longrightarrow>
         playVideoToCanvas h (file' v) CANVAS_WIDTH CANVAS_HEIGHT =
           (Fulfilled (),
            [CreateVideo, CreateObjectURL (file' v)]
            @ (if a = ConnectThrows then [CreateMediaElementSource] else [])
            @ [ConsoleWarn, Play]
            @ drawFrame CANVAS_WIDTH CANVAS_HEIGHT fr
            @ concat (map (drawFrame CANVAS_WIDTH CANVAS_HEIGHT) frs)
            @ (if a = ConnectThrows then [Disconnect] else [])
            @ [RevokeObjectURL (file' v), Resolve])
         \<and> (\<exists>x y w d. DrawImage x y w d \<in> set (drawFrame CANVAS_WIDTH CANVAS_HEIGHT fr))
         \<and> (canvasContext h
             \<and> (\<forall>u\<in>set pre.
                  fst (playVideoToCanvas h (file' u) CANVAS_WIDTH CANVAS_HEIGHT) = Fulfilled ())
             \<and> (\<forall>u\<in>set post.
                  fst (playVideoToCanvas h (file' u) CANVAS_WIDTH CANVAS_HEIGHT) = Fulfilled ())
             \<longrightarrow>
               (\<exists>b. fst (stitchVideos h (pre @ v # post)) = Fulfilled b)
               \<and> (\<exists>before after.
                     snd (stitchVideos h (pre @ v # post)) =
                       before
                       @ snd (playVideoToCanvas h (file' v) CANVAS_WIDTH CANVAS_HEIGHT)
                       @ after)))"
proof (intro conjI impI)
  assume "a \<noteq> AttachOk"
  then show "settled (onloadedmetadata a st) = settled st"
    by (cases a) (simp_all add: onloadedmetadata_def)
next
  assume "a \<noteq> AttachOk"
  then show "\<exists>cs. calls (onloadedmetadata a st) = calls st @ cs @ [ConsoleWarn, Play]
               \<and> Connect \<notin> set cs"
  proof (cases a)
    case AttachOk
    with \<open>a \<noteq> AttachOk\<close> show ?thesis by simp
  next
    case CreateThrows
    then have "calls (onloadedmetadata a st) = calls st @ [] @ [ConsoleWarn, Play]"
      by (simp add: onloadedmetadata_def)
    then show ?thesis by (intro exI [of _ "[]"]) simp
  next
    case ConnectThrows
    then have "calls (onloadedmetadata a st)
        = calls st @ [CreateMediaElementSource] @ [ConsoleWarn, Play]"
      by (simp add: onloadedmetadata_def)
    then show ?thesis by (intro exI [of _ "[CreateMediaElementSource]"]) simp
  qed
next
  show "fst (stitchVideos (h\<lparr>media := \<lambda>f. map audible (media h f)\<rparr>) videos)
       = fst (stitchVideos h videos)"
    by (simp add: stitchVideos_audible)
next
  show "filter (\<lambda>c. \<not> isAudioCall c)
       (snd (stitchVideos (h\<lparr>media := \<lambda>f. map audible (media h f)\<rparr>) videos))
     = filter (\<lambda>c. \<not> isAudioCall c) (snd (stitchVideos h videos))"
    by (simp add: stitchVideos_audible)
next
  assume silent: "a \<noteq> AttachOk
       \<and> media h (file' v)
           = LoadedMetadata a # PlayFulfilled fr # map AnimationFrame frs @ [Ended]
       \<and> \<not> paused fr \<and> \<not> ended fr"
  then show "playVideoToCanvas h (file' v) CANVAS_WIDTH CANVAS_HEIGHT =
           (Fulfilled (),
            [CreateVideo, CreateObjectURL (file' v)]
            @ (if a = ConnectThrows then [CreateMediaElementSource] else [])
            @ [ConsoleWarn, Play]
            @ drawFrame CANVAS_WIDTH CANVAS_HEIGHT fr
            @ concat (map (drawFrame CANVAS_WIDTH CANVAS_HEIGHT) frs)
            @ (if a = ConnectThrows then [Disconnect] else [])
            @ [RevokeObjectURL (file' v), Resolve])"
    by (intro silent_clip_plays) simp_all
next
  assume "a \<noteq> AttachOk
       \<and> media h (file' v)
           = LoadedMetadata a # PlayFulfilled fr # map AnimationFrame frs @ [Ended]
       \<and> \<not> paused fr \<and> \<not> ended fr"
  then show "\<exists>x y w d. DrawImage x y w d \<in> set (drawFrame CANVAS_WIDTH CANVAS_HEIGHT fr)"
    by (intro drawFrame_draws) simp_all
next
  assume silent: "a \<noteq> AttachOk
       \<and> media h (file' v)
           = LoadedMetadata a # PlayFulfilled fr # map AnimationFrame frs @ [Ended]
       \<and> \<not> paused fr \<and> \<not> ended fr"
    and others: "canvasContext h
             \<and> (\<forall>u\<in>set pre.
                  fst (playVideoToCanvas h (file' u) CANVAS_WIDTH CANVAS_HEIGHT) = Fulfilled ())
             \<and> (\<forall>u\<in>set post.
                  fst (playVideoToCanvas h (file' u) CANVAS_WIDTH CANVAS_HEIGHT) = Fulfilled ())"
  have "fst (playVideoToCanvas h (file' v) CANVAS_WIDTH CANVAS_HEIGHT) = Fulfilled ()"
    using silent silent_clip_plays [of a h "file' v" fr frs CANVAS_WIDTH CANVAS_HEIGHT]
    by simp
  then have all: "\<forall>u\<in>set (pre @ v # post).
      fst (playVideoToCanvas h (file' u) CANVAS_WIDTH CANVAS_HEIGHT) = Fulfilled ()"
    using others by auto
  have ctx: "canvasContext h" using others by simp
  from clip_calls_in_run [OF ctx all]
  show "\<exists>b. fst (stitchVideos h (pre @ v # post)) = Fulfilled b"
    and "\<exists>before after.
                     snd (stitchVideos h (pre @ v # post)) =
                       before
                       @ snd (playVideoToCanvas h (file' v) CANVAS_WIDTH CANVAS_HEIGHT)
                       @ after"
    by blast+
qed

theorem audio_attach_failure_nonfatal_witness:
  "CreateThrows \<noteq> AttachOk
   \<and> settled (onloadedmetadata CreateThrows
        \<lparr>source = None, settled = Pending, calls = [CreateVideo, CreateObjectURL (File 2)]\<rparr>)
       = Pending
   \<and> (\<exists>cs. calls (onloadedmetadata CreateThrows
        \<lparr>source = None, settled = Pending, calls = [CreateVideo, CreateObjectURL (File 2)]\<rparr>)
          = [CreateVideo, CreateObjectURL (File 2)] @ cs @ [ConsoleWarn, Play]
        \<and> Connect \<notin> set cs)
   \<and> fst (stitchVideos exampleHost [exampleClip 2])
       = Fulfilled \<lparr>bytes = [1, 2, 3], mime = ''video/webm;codecs=vp9,opus''\<rparr>
   \<and> fst (stitchVideos (exampleHost\<lparr>media := \<lambda>f. map audible (media exampleHost f)\<rparr>)
            [exampleClip 2])
       = Fulfilled \<lparr>bytes = [1, 2, 3], mime = ''video/webm;codecs=vp9,opus''\<rparr>
   \<and> media exampleHost (file' (exampleClip 2))
       = LoadedMetadata CreateThrows # PlayFulfilled exampleFrame # map AnimationFrame [] @ [Ended]
   \<and> \<not> paused exampleFrame \<and> \<not> ended exampleFrame
   \<and> playVideoToCanvas exampleHost (file' (exampleClip 2)) CANVAS_WIDTH CANVAS_HEIGHT =
       (Fulfilled (),
        [CreateVideo, CreateObjectURL (File 2), ConsoleWarn, Play,
         FillStyle ''#000000'', FillRect (Num 0) (Num 0) (Num 1280) (Num 720),
         DrawImage (Num 0) (Num 180) (Num 1280) (Num 360), RequestAnimationFrame,
         RevokeObjectURL (File 2), Resolve])
   \<and> canvasContext exampleHost
   \<and> fst (playVideoToCanvas exampleHost (file' (exampleClip 0)) CANVAS_WIDTH CANVAS_HEIGHT)
       = Fulfilled ()
   \<and> (\<exists>b. fst (stitchVideos exampleHost [exampleClip 0, exampleClip 2, exampleClip 0])
            = Fulfilled b)
   \<and> ConsoleWarn \<in> set (snd (stitchVideos exampleHost [exampleClip 0, exampleClip 2, exampleClip 0]))
   \<and> Play \<in> set (snd (stitchVideos exampleHost [exampleClip 0, exampleClip 2, exampleClip 0]))
   \<and> DrawImage (Num 0) (Num 180) (Num 1280) (Num 360)
       \<in> set (snd (stitchVideos exampleHost [exampleClip 0, exampleClip 2, exampleClip 0]))"
proof -
  let ?st = "\<lparr>source = None, settled = Pending,
               calls = [CreateVideo, CreateObjectURL (File 2)]\<rparr>"
  let ?run = "stitchVideos exampleHost [exampleClip 0, exampleClip 2, exampleClip 0]"
  have ne: "CreateThrows \<noteq> AttachOk" by simp
  have med: "media exampleHost (file' (exampleClip 2))
       = LoadedMetadata CreateThrows # PlayFulfilled exampleFrame # map AnimationFrame [] @ [Ended]"
    by (simp add: exampleClip_simps exampleHost_simps)
  have fr: "\<not> paused exampleFrame" "\<not> ended exampleFrame"
    by (simp_all add: exampleFrame_def)
  have ctx: "canvasContext exampleHost" by (rule exampleHost_simps)
  have ok: "\<forall>u\<in>set [exampleClip 0].
      fst (playVideoToCanvas exampleHost (file' u) CANVAS_WIDTH CANVAS_HEIGHT) = Fulfilled ()"
    by (simp add: example_outcomes)
  note inst = audio_attach_failure_nonfatal
    [of CreateThrows ?st exampleHost "[exampleClip 2]" "exampleClip 2" exampleFrame "[]"
        "[exampleClip 0]" "[exampleClip 0]"]
  from inst ne have 1: "settled (onloadedmetadata CreateThrows ?st) = Pending"
    by simp
  from inst ne have 2: "\<exists>cs. calls (onloadedmetadata CreateThrows ?st)
          = [CreateVideo, CreateObjectURL (File 2)] @ cs @ [ConsoleWarn, Play]
        \<and> Connect \<notin> set cs"
    by simp
  from inst have 3:
    "fst (stitchVideos (exampleHost\<lparr>media := \<lambda>f. map audible (media exampleHost f)\<rparr>)
            [exampleClip 2])
       = Fulfilled \<lparr>bytes = [1, 2, 3], mime = ''video/webm;codecs=vp9,opus''\<rparr>"
    unfolding exampleHost_run2 by blast
  from inst ne med fr have drv:
    "playVideoToCanvas exampleHost (file' (exampleClip 2)) CANVAS_WIDTH CANVAS_HEIGHT =
       (Fulfilled (),
        [CreateVideo, CreateObjectURL (file' (exampleClip 2))]
        @ (if CreateThrows = ConnectThrows then [CreateMediaElementSource] else [])
        @ [ConsoleWarn, Play]
        @ drawFrame CANVAS_WIDTH CANVAS_HEIGHT exampleFrame
        @ concat (map (drawFrame CANVAS_WIDTH CANVAS_HEIGHT) [])
        @ (if CreateThrows = ConnectThrows then [Disconnect] else [])
        @ [RevokeObjectURL (file' (exampleClip 2)), Resolve])"
    by blast
  then have 4:
    "playVideoToCanvas exampleHost (file' (exampleClip 2)) CANVAS_WIDTH CANVAS_HEIGHT =
       (Fulfilled (),
        [CreateVideo, CreateObjectURL (File 2), ConsoleWarn, Play,
         FillStyle ''#000000'', FillRect (Num 0) (Num 0) (Num 1280) (Num 720),
         DrawImage (Num 0) (Num 180) (Num 1280) (Num 360), RequestAnimationFrame,
         RevokeObjectURL (File 2), Resolve])"
    by (simp add: exampleClip_simps CANVAS_WIDTH_def CANVAS_HEIGHT_def drawFrame_exampleFrame)
  have silent: "CreateThrows \<noteq> AttachOk
       \<and> media exampleHost (file' (exampleClip 2))
           = LoadedMetadata CreateThrows # PlayFulfilled exampleFrame
             # map AnimationFrame [] @ [Ended]
       \<and> \<not> paused exampleFrame \<and> \<not> ended exampleFrame"
    using ne med fr by blast
  have others: "canvasContext exampleHost
       \<and> (\<forall>u\<in>set [exampleClip 0].
            fst (playVideoToCanvas exampleHost (file' u) CANVAS_WIDTH CANVAS_HEIGHT)
              = Fulfilled ())
       \<and> (\<forall>u\<in>set [exampleClip 0].
            fst (playVideoToCanvas exampleHost (file' u) CANVAS_WIDTH CANVAS_HEIGHT)
              = Fulfilled ())"
    using ctx ok by blast
  have app: "[exampleClip 0] @ exampleClip 2 # [exampleClip 0]
      = [exampleClip 0, exampleClip 2, exampleClip 0]"
    by simp
  from inst silent others
  have "\<exists>b. fst (stitchVideos exampleHost ([exampleClip 0] @ exampleClip 2 # [exampleClip 0]))
          = Fulfilled b"
    and "\<exists>before after.
        snd (stitchVideos exampleHost ([exampleClip 0] @ exampleClip 2 # [exampleClip 0])) =
        before @ snd (playVideoToCanvas exampleHost (file' (exampleClip 2))
                        CANVAS_WIDTH CANVAS_HEIGHT) @ after"
    by blast+
  then have 5: "\<exists>b. fst ?run = Fulfilled b"
    and shape: "\<exists>before after. snd ?run =
        before @ snd (playVideoToCanvas exampleHost (file' (exampleClip 2))
                        CANVAS_WIDTH CANVAS_HEIGHT) @ after"
    unfolding app by blast+
  from shape 4 have 6: "ConsoleWarn \<in> set (snd ?run)" "Play \<in> set (snd ?run)"
    "DrawImage (Num 0) (Num 180) (Num 1280) (Num 360) \<in> set (snd ?run)"
    by auto
  show ?thesis
    by (intro conjI) (rule ne 1 2 3 4 5 6 med fr ctx exampleHost_run2 example_outcomes(1))+
qed

end
